theory Spec2Isabelle
  imports Complex_Main "HOL-Library.Word" "HOL-Library.Sublist"
begin

section \<open>Rule store (rest\_rules.cpp, de\_web\_plugin.cpp)\<close>

text \<open>
  A rule as the C++ class \<open>Rule\<close> holds it.  Identifiers, names, status and
  time stamps are \<open>QString\<close>s; the conditions and actions are vectors that are
  compared with \<open>operator==\<close>, i.e. element by element.
\<close>

datatype RuleState = StateNormal | StateDeleted

record RuleCondition =
  cAddress :: string
  cOperator :: string
  cValue :: string

record RuleAction =
  aAddress :: string
  aMethod :: string
  aBody :: string

record Rule =
  ruleId :: string
  ruleName :: string
  ruleOwner :: string
  ruleStatus :: string
  ruleState :: RuleState
  triggerPeriodic :: int
  conditions :: "RuleCondition list"
  actions :: "RuleAction list"
  creationtime :: string
  lastTriggered :: string
  timesTriggered :: int
  ruleEtag :: string
  lastVerify :: int

text \<open>
  The lookups of the plugin return a pointer into a \<open>std::vector\<close>; the model
  returns the index of the element, \<open>None\<close> for the null pointer.
  \<open>firstIndex P xs\<close> is the loop
  \<^verbatim>\<open>for (i = begin; i != end; ++i) if (P(*i)) return &(*i);\<close>.
\<close>

fun firstIndex :: "('a \<Rightarrow> bool) \<Rightarrow> 'a list \<Rightarrow> nat option" where
  "firstIndex P [] = None"
| "firstIndex P (x # xs) = (if P x then Some 0 else map_option Suc (firstIndex P xs))"

definition getRuleForId :: "Rule list \<Rightarrow> string \<Rightarrow> nat option" where
  "getRuleForId rs i =
     (case firstIndex (\<lambda>r. ruleId r = i \<and> ruleState r \<noteq> StateDeleted) rs of
        Some k \<Rightarrow> Some k
      | None \<Rightarrow> firstIndex (\<lambda>r. ruleId r = i) rs)"


section \<open>Strings and variants (Qt types used by the REST handlers)\<close>

text \<open>
  \<open>QString::number(int)\<close> prints a decimal numeral, \<open>QString::toInt()\<close> reads
  one and yields 0 when the text is not a numeral.  The model reads an optional sign
  followed by at least one ASCII digit; it does not trim white space and it does not
  cut the value to 32 bits (the plugin's ids and button codes are far below that).
  \<open>QVariant::toInt\<close>, which reads the period of a rule from the request, is modelled
  with both (\<open>variantToInt\<close> below).
\<close>

definition digitChar :: "nat \<Rightarrow> char" where
  "digitChar d = ''0123456789'' ! d"

fun digits :: "nat \<Rightarrow> string" where
  "digits n = (if n < 10 then [digitChar n] else digits (n div 10) @ [digitChar (n mod 10)])"

declare digits.simps [simp del]

definition number :: "int \<Rightarrow> string" where
  "number n = (if n < 0 then CHR ''-'' # digits (nat (- n)) else digits (nat n))"

definition isDigit :: "char \<Rightarrow> bool" where
  "isDigit c = (48 \<le> (of_char c :: nat) \<and> (of_char c :: nat) \<le> 57)"

fun parseDigits :: "nat \<Rightarrow> string \<Rightarrow> nat option" where
  "parseDigits acc [] = Some acc"
| "parseDigits acc (c # cs) =
     (if isDigit c then parseDigits (10 * acc + (of_char c - 48)) cs else None)"

definition toUInt :: "string \<Rightarrow> nat option" where
  "toUInt s = (if s = [] then None else parseDigits 0 s)"

definition toIntOk :: "string \<Rightarrow> int option" where
  "toIntOk s =
     (case s of
        [] \<Rightarrow> None
      | c # cs \<Rightarrow>
          if c = CHR ''-'' then map_option (\<lambda>n. - int n) (toUInt cs)
          else if c = CHR ''+'' then map_option int (toUInt cs)
          else map_option int (toUInt s))"

definition toInt :: "string \<Rightarrow> int" where
  "toInt s = (case toIntOk s of Some n \<Rightarrow> n | None \<Rightarrow> 0)"

text \<open>Printing a number and reading it back yields the number.\<close>

lemma digitChar_isDigit: "d < 10 \<Longrightarrow> isDigit (digitChar d)"
proof -
  assume "d < 10"
  then have "d \<in> {0,1,2,3,4,5,6,7,8,9}" by auto
  then show ?thesis by (auto simp: digitChar_def isDigit_def)
qed

lemma digitChar_val: "d < 10 \<Longrightarrow> (of_char (digitChar d) :: nat) - 48 = d"
proof -
  assume "d < 10"
  then have "d \<in> {0,1,2,3,4,5,6,7,8,9}" by auto
  then show ?thesis by (auto simp: digitChar_def)
qed

lemma parseDigits_append:
  "parseDigits acc (xs @ ys) = (case parseDigits acc xs of None \<Rightarrow> None | Some a \<Rightarrow> parseDigits a ys)"
  by (induction xs arbitrary: acc) auto

lemma parseDigits_digits: "parseDigits 0 (digits n) = Some n"
proof (induction n rule: digits.induct)
  case (1 n)
  show ?case
  proof (cases "n < 10")
    case True
    then show ?thesis by (simp add: digits.simps [of n] digitChar_isDigit digitChar_val)
  next
    case False
    then have ih: "parseDigits 0 (digits (n div 10)) = Some (n div 10)" using 1 by simp
    have d: "n mod 10 < 10" by simp
    have "digits n = digits (n div 10) @ [digitChar (n mod 10)]"
      using False by (simp add: digits.simps [of n])
    then show ?thesis
      using ih digitChar_isDigit [OF d] digitChar_val [OF d]
      by (simp add: parseDigits_append)
  qed
qed

lemma digits_nonempty: "digits n \<noteq> []"
  by (simp add: digits.simps [of n])

lemma digits_hd_digit: "isDigit (hd (digits n))"
proof (induction n rule: digits.induct)
  case (1 n)
  show ?case
  proof (cases "n < 10")
    case True
    then show ?thesis by (simp add: digits.simps [of n] digitChar_isDigit)
  next
    case False
    then have "isDigit (hd (digits (n div 10)))" using 1 by simp
    moreover have "digits n = digits (n div 10) @ [digitChar (n mod 10)]"
      using False by (simp add: digits.simps [of n])
    ultimately show ?thesis using digits_nonempty [of "n div 10"] by (simp)
  qed
qed

lemma toUInt_digits: "toUInt (digits n) = Some n"
  by (simp add: toUInt_def digits_nonempty parseDigits_digits)

lemma isDigit_not_sign: "isDigit c \<Longrightarrow> c \<noteq> CHR ''-'' \<and> c \<noteq> CHR ''+''"
  by (auto simp: isDigit_def)

lemma toInt_number: "toInt (number n) = n"
proof (cases "n < 0")
  case True
  then show ?thesis
    by (simp add: toInt_def toIntOk_def number_def toUInt_digits)
next
  case False
  obtain c cs where e: "digits (nat n) = c # cs"
    using digits_nonempty [of "nat n"] by (cases "digits (nat n)") auto
  then have "isDigit c" using digits_hd_digit [of "nat n"] by simp
  then have "c \<noteq> CHR ''-''" "c \<noteq> CHR ''+''" using isDigit_not_sign by auto
  moreover have "toUInt (c # cs) = Some (nat n)" using toUInt_digits [of "nat n"] e by simp
  ultimately show ?thesis using False e
    by (simp add: toInt_def toIntOk_def number_def)
qed

text \<open>
  \<open>QString::indexOf(pat)\<close>: the position of the first occurrence, \<open>None\<close> for -1;
  \<open>contains\<close> and \<open>mid\<close> as the handlers use them.
\<close>

fun indexOf :: "string \<Rightarrow> string \<Rightarrow> nat option" where
  "indexOf pat [] = (if pat = [] then Some 0 else None)"
| "indexOf pat (c # cs) =
     (if prefix pat (c # cs) then Some 0 else map_option Suc (indexOf pat cs))"

definition containsStr :: "string \<Rightarrow> string \<Rightarrow> bool" where
  "containsStr s pat = (indexOf pat s \<noteq> None)"

definition midFrom :: "string \<Rightarrow> string \<Rightarrow> string" where
  "midFrom s pat = (case indexOf pat s of Some k \<Rightarrow> drop k s | None \<Rightarrow> s)"

text \<open>
  A parsed JSON value as a \<open>QVariant\<close>.  JSON numbers are modelled for integral
  values (of at most 64 bits).  \<open>toString\<close>, \<open>toList\<close> and \<open>toMap\<close> yield the empty value for a variant
  of another type; \<open>map[key]\<close> yields an invalid variant for a missing key.
\<close>

datatype QVariant =
    Invalid
  | VString string
  | VInt int
  | VBool bool
  | VList "QVariant list"
  | VMap "(string \<times> QVariant) list"

fun toString :: "QVariant \<Rightarrow> string" where
  "toString (VString s) = s"
| "toString (VInt n) = number n"
| "toString (VBool b) = (if b then ''true'' else ''false'')"
| "toString _ = []"

fun toList :: "QVariant \<Rightarrow> QVariant list" where
  "toList (VList xs) = xs"
| "toList _ = []"

fun toMap :: "QVariant \<Rightarrow> (string \<times> QVariant) list" where
  "toMap (VMap m) = m"
| "toMap _ = []"

fun isString :: "QVariant \<Rightarrow> bool" where
  "isString (VString s) = True"
| "isString _ = False"

text \<open>
  \<open>QVariant::toInt(&ok)\<close>: the value, or \<open>None\<close> when \<open>ok\<close> is false.  Qt converts
  the variant to a \<open>qlonglong\<close> and casts that to the 32-bit \<open>int\<close>, which keeps the
  low 32 bits (4294967296 becomes 0, 2147483648 becomes -2147483648) and leaves \<open>ok\<close>
  true.  A string is read by \<open>QString::toLongLong\<close>: leading and trailing white space
  is skipped, and the conversion fails when the text is not a numeral or the number
  does not fit into 64 bits.  A bool converts to 0 or 1; a list, a map and an invalid
  variant do not convert.
\<close>

definition toInt32 :: "int \<Rightarrow> int" where
  "toInt32 n = sint (word_of_int n :: 32 word)"

definition isSpace :: "char \<Rightarrow> bool" where
  "isSpace c = ((of_char c :: nat) = 32 \<or> (9 \<le> (of_char c :: nat) \<and> (of_char c :: nat) \<le> 13))"

definition trimmed :: "string \<Rightarrow> string" where
  "trimmed s = rev (dropWhile isSpace (rev (dropWhile isSpace s)))"

definition toLongLongOk :: "string \<Rightarrow> int option" where
  "toLongLongOk s =
     (case toIntOk (trimmed s) of
        Some n \<Rightarrow> if - (2 ^ 63) \<le> n \<and> n < 2 ^ 63 then Some n else None
      | None \<Rightarrow> None)"

fun variantToInt :: "QVariant \<Rightarrow> int option" where
  "variantToInt (VInt n) = Some (toInt32 n)"
| "variantToInt (VString s) = map_option toInt32 (toLongLongOk s)"
| "variantToInt (VBool b) = Some (if b then 1 else 0)"
| "variantToInt _ = None"

definition mapContains :: "(string \<times> QVariant) list \<Rightarrow> string \<Rightarrow> bool" where
  "mapContains m k = (map_of m k \<noteq> None)"

definition mapGet :: "(string \<times> QVariant) list \<Rightarrow> string \<Rightarrow> QVariant" where
  "mapGet m k = (case map_of m k of Some v \<Rightarrow> v | None \<Rightarrow> Invalid)"

section \<open>REST responses\<close>

text \<open>
  The entries a handler appends to \<open>rsp.list\<close>: an error map (its code and its
  address; the free-text description is not modelled) or a success map with one key.
\<close>

datatype ApiError =
    ERR_INVALID_JSON
  | ERR_MISSING_PARAMETER
  | ERR_INVALID_VALUE
  | ERR_TOO_MANY_ITEMS
  | ERR_PARAMETER_NOT_AVAILABLE
  | ERR_RESOURCE_NOT_AVAILABLE
  | ERR_ACTION_ERROR

datatype HttpStatus = HttpStatusOk | HttpStatusBadRequest | HttpStatusNotFound

datatype RspItem = RspError ApiError string | RspSuccess string QVariant

record ApiResponse =
  httpStatus :: HttpStatus
  rspList :: "RspItem list"

section \<open>Sensors\<close>

datatype SensorDeletedState = SensorNormal | SensorDeleted

record Sensor =
  sensorId :: string
  sensorType :: string
  sensorExt :: "64 word"
  sensorModelId :: string
  sensorDeletedState :: SensorDeletedState
  buttonevent :: int
  lastupdated :: string
  lux :: "32 word"
  sensorEtag :: string

section \<open>Condition validation (rest\_rules.cpp, checkConditions)\<close>

text \<open>The addresses one sensor contributes to \<open>validAddresses\<close>.\<close>

definition sensorAddresses :: "Sensor \<Rightarrow> string list" where
  "sensorAddresses s =
     (let base = ''/sensors/'' @ sensorId s; t = sensorType s in
      [base @ ''/config/reachable'', base @ ''/config/on'', base @ ''/config/battery'',
       base @ ''/state/lastupdated'']
      @ (if t = ''ZGPSwitch'' then [base @ ''/state/buttonevent'']
         else if t = ''ZHASwitch'' then [base @ ''/state/buttonevent'']
         else if t = ''ZHALight'' then [base @ ''/state/illuminance'']
         else if t = ''ZHAPresence'' then [base @ ''/state/presence'']
         else if t = ''CLIPOpenClose'' then [base @ ''/state/open'']
         else if t = ''CLIPPresence'' then [base @ ''/state/presence'']
         else if t = ''CLIPTemperature'' then [base @ ''/state/temperature'']
         else if t = ''CLIPHumidity'' then [base @ ''/state/humidity'']
         else if t = ''DaylightSensor'' then
           [base @ ''/state/daylight'', base @ ''/config/long'', base @ ''/config/lat'',
            base @ ''/config/sunriseoffset'', base @ ''/config/sunsetoffset'']
         else if t = ''CLIPGenericFlag'' then [base @ ''/state/flag'']
         else if t = ''CLIPGenericStatus'' then [base @ ''/state/status'']
         else []))"

definition validAddresses :: "Sensor list \<Rightarrow> string list" where
  "validAddresses sensors = concat (map sensorAddresses sensors)"

text \<open>
  \<open>confstate\<close>: the part of the address from the first \<open>/config\<close>, else from the
  first \<open>/state\<close>, else empty.
\<close>

definition confstateOf :: "string \<Rightarrow> string" where
  "confstateOf address =
     (if containsStr address ''/config'' then midFrom address ''/config''
      else if containsStr address ''/state'' then midFrom address ''/state''
      else [])"

text \<open>
  The operators and the value category the if-chain of \<open>checkConditions\<close> selects
  for a \<open>confstate\<close>, with the literals of the source.
\<close>

definition validOperatorsFor :: "string \<Rightarrow> string list \<times> string" where
  "validOperatorsFor confstate =
     (if confstate = ''/state/lastupdated'' \<or> confstate = ''/state/long''
          \<or> confstate = ''/state/lat''
      then ([''dx''], [])
      else if confstate = ''/state/illuminance'' \<or> confstate = ''/state/presence''
      then ([''dx'', ''eq'', ''lt'', ''gt''], ''numbers'')
      else if confstate = ''/config/reachable'' \<or> confstate = ''/config/on''
          \<or> confstate = ''/state/open'' \<or> confstate = ''/state/presence''
          \<or> confstate = ''/state/flag'' \<or> confstate = ''/state/daylight''
      then ([''dx'', ''eq''], ''boolean'')
      else if confstate = ''/config/battery'' \<or> confstate = ''/state/buttonevent''
          \<or> confstate = ''/state/temperature'' \<or> confstate = ''/state/humidity''
      then ([''dx'', ''eq'', ''gt'', ''lt''], ''numbers'')
      else if confstate = ''/config/sunriseoffset'' \<or> confstate = ''/config/sunsetoffset''
      then ([''eq'', ''gt'', ''lt''], ''numbers'')
      else ([], []))"

text \<open>
  The regular expressions \<^verbatim>\<open>^[1-9]\d*$\<close> and \<^verbatim>\<open>^(true|false)$\<close>, with
  \<^verbatim>\<open>\d\<close> read as an ASCII digit.
\<close>

definition matchesNumbers :: "string \<Rightarrow> bool" where
  "matchesNumbers v =
     (case v of [] \<Rightarrow> False
      | c # cs \<Rightarrow> isDigit c \<and> c \<noteq> CHR ''0'' \<and> list_all isDigit cs)"

definition matchesBoolean :: "string \<Rightarrow> bool" where
  "matchesBoolean v = (v = ''true'' \<or> v = ''false'')"

text \<open>
  One iteration of the loop over the conditions: \<open>Inl\<close> is the error appended to the
  response before \<open>return false\<close>, \<open>Inr ()\<close> the end of the iteration.
\<close>

definition checkCondition :: "string list \<Rightarrow> QVariant \<Rightarrow> RspItem + unit" where
  "checkCondition valid ci =
     (let address = toString (mapGet (toMap ci) ''address'');
          ooperator = toString (mapGet (toMap ci) ''operator'');
          val = toString (mapGet (toMap ci) ''value'');
          confstate = confstateOf address;
          (validOperators, validValues) = validOperatorsFor confstate
      in if address \<notin> set valid then Inl (RspError ERR_RESOURCE_NOT_AVAILABLE address)
         else if ooperator \<notin> set validOperators
           then Inl (RspError ERR_INVALID_VALUE ''/rules/operator'')
         else if ooperator = ''dx''
           then (if val \<noteq> [] then Inl (RspError ERR_INVALID_VALUE ''/rules/conditions'')
                 else Inr ())
         else if validValues = ''numbers''
           then (if \<not> matchesNumbers val
                 then Inl (RspError ERR_INVALID_VALUE ''/rules/conditions'') else Inr ())
         else if validValues = ''boolean''
           then (if \<not> matchesBoolean val
                 then Inl (RspError ERR_INVALID_VALUE ''/rules/conditions'') else Inr ())
         else Inr ())"

fun checkConditionsLoop :: "string list \<Rightarrow> QVariant list \<Rightarrow> RspItem + unit" where
  "checkConditionsLoop valid [] = Inr ()"
| "checkConditionsLoop valid (ci # cs) =
     (case checkCondition valid ci of
        Inl e \<Rightarrow> Inl e
      | Inr _ \<Rightarrow> checkConditionsLoop valid cs)"

definition checkConditions :: "Sensor list \<Rightarrow> QVariant list \<Rightarrow> RspItem + unit" where
  "checkConditions sensors conditionsList =
     checkConditionsLoop (validAddresses sensors) conditionsList"


section \<open>The environment of a REST call\<close>

text \<open>
  What a handler takes from outside the two source files: the default-constructed
  \<open>Rule\<close> (its constructor is declared in a header), the current UTC time as
  \<open>createRule\<close> formats it, the ETag that \<open>updateEtag\<close> derives from the current
  time, \<open>Json::serialize\<close>, the \<open>ok\<close> flag of \<open>Json::parse\<close> on a string, and
  the constant \<open>MAX_RULE_NAME_LENGTH\<close>.
\<close>

record Env =
  envNewRule :: Rule
  envCurrentDateTimeUtc :: string
  envEtag :: string
  envSerialize :: "(string \<times> QVariant) list \<Rightarrow> string"
  envParseOk :: "string \<Rightarrow> bool"
  envMaxRuleNameLength :: nat

text \<open>
  The state of the plugin that the rule handlers read and write.  A request body is
  given as the result of \<open>Json::parse(req.content, ok)\<close>: \<open>None\<close> when \<open>ok\<close> is
  false.  \<open>userActivity\<close>, \<open>queSaveDb\<close> and \<open>queueCheckRuleBindings\<close> touch idle
  counters, the database timer, the binding queue and sensor read flags only; they are
  not part of the model.
\<close>

record RuleStore =
  rules :: "Rule list"
  sensors :: "Sensor list"
  gwConfigEtag :: string

section \<open>Action validation (rest\_rules.cpp, checkActions)\<close>

fun checkActionsLoop :: "(string \<Rightarrow> bool) \<Rightarrow> string list \<Rightarrow> QVariant list \<Rightarrow> RspItem + unit" where
  "checkActionsLoop parseOk addresses [] = Inr ()"
| "checkActionsLoop parseOk addresses (ai # as) =
     (let address = toString (mapGet (toMap ai) ''address'');
          method = toString (mapGet (toMap ai) ''method'');
          body = toString (mapGet (toMap ai) ''body'')
      in if \<not> (prefix ''/lights'' address \<or> prefix ''/groups'' address
                \<or> prefix ''/scenes'' address \<or> prefix ''/schedules'' address
                \<or> prefix ''/sensors'' address) \<or> address \<in> set addresses
         then Inl (RspError ERR_ACTION_ERROR address)
         else if \<not> (method = ''PUT'' \<or> method = ''POST'' \<or> method = ''DELETE''
                \<or> method = ''BIND'')
         then Inl (RspError ERR_INVALID_VALUE ''rules/method'')
         else if \<not> parseOk body then Inl (RspError ERR_INVALID_JSON ''/rules/'')
         else checkActionsLoop parseOk (addresses @ [address]) as)"

definition checkActions :: "Env \<Rightarrow> QVariant list \<Rightarrow> RspItem + unit" where
  "checkActions env actionsList = checkActionsLoop (envParseOk env) [] actionsList"

section \<open>POST /api/<apikey>/rules (rest\_rules.cpp, createRule)\<close>

text \<open>
  The search for a new rule id.  \<open>idPass\<close> is one run of the inner \<open>for\<close> loop: it
  carries the candidate id and the flag \<open>ok\<close>; \<open>newRuleId\<close> is the \<open>do ... while
  (!ok)\<close> around it.
\<close>

fun idPass :: "Rule list \<Rightarrow> string \<Rightarrow> bool \<Rightarrow> string \<times> bool" where
  "idPass [] cur ok = (cur, ok)"
| "idPass (r # rs) cur ok =
     (if ruleId r = cur then idPass rs (number (toInt (ruleId r) + 1)) False
      else idPass rs cur ok)"

lemma idPass_mono: "idPass rs cur ok = (cur', ok') \<Longrightarrow> toInt cur \<le> toInt cur'"
proof (induction rs arbitrary: cur ok)
  case Nil
  then show ?case by simp
next
  case (Cons r rs)
  show ?case
  proof (cases "ruleId r = cur")
    case True
    with Cons.prems have "idPass rs (number (toInt cur + 1)) False = (cur', ok')" by simp
    from Cons.IH [OF this] show ?thesis by (simp add: toInt_number)
  next
    case False
    with Cons.prems have "idPass rs cur ok = (cur', ok')" by simp
    from Cons.IH [OF this] show ?thesis .
  qed
qed

lemma idPass_changed:
  "idPass rs cur ok = (cur', False) \<Longrightarrow> ok \<Longrightarrow>
     toInt cur < toInt cur' \<and> (\<exists>r \<in> set rs. toInt (ruleId r) = toInt cur)"
proof (induction rs arbitrary: cur)
  case Nil
  then show ?case by simp
next
  case (Cons r rs)
  show ?case
  proof (cases "ruleId r = cur")
    case True
    with Cons.prems have "idPass rs (number (toInt cur + 1)) False = (cur', False)" by simp
    from idPass_mono [OF this] True show ?thesis by (simp add: toInt_number)
  next
    case False
    with Cons.prems have "idPass rs cur ok = (cur', False)" by simp
    from Cons.IH [OF this Cons.prems(2)] show ?thesis by simp
  qed
qed

lemma idPass_unchanged: "idPass rs cur True = (cur', True) \<Longrightarrow> cur' = cur \<and> cur \<notin> ruleId ` set rs"
proof (induction rs)
  case Nil
  then show ?case by simp
next
  case (Cons r rs)
  show ?case
  proof (cases "ruleId r = cur")
    case True
    have "\<And>c. snd (idPass rs c False) = False" for rs :: "Rule list"
      by (induction rs) auto
    with Cons.prems True show ?thesis by (metis idPass.simps(2) snd_conv)
  next
    case False
    with Cons show ?thesis by auto
  qed
qed

function newRuleId :: "Rule list \<Rightarrow> string \<Rightarrow> string" where
  "newRuleId rs cur =
     (case idPass rs cur True of (cur', ok) \<Rightarrow> if ok then cur' else newRuleId rs cur')"
  by pat_completeness auto
termination
proof (relation "measure (\<lambda>(rs, cur). length (filter (\<lambda>r. toInt cur \<le> toInt (ruleId r)) rs))",
    goal_cases)
  case 1
  show ?case by simp
next
  case (2 rs cur cur' ok)
  then have p: "idPass rs cur True = (cur', False)" by simp
  from idPass_changed [OF p] obtain r where
    lt: "toInt cur < toInt cur'" and r: "r \<in> set rs" "toInt (ruleId r) = toInt cur" by auto
  have e: "(\<lambda>q. toInt cur \<le> toInt (ruleId q) \<and> toInt cur' \<le> toInt (ruleId q))
      = (\<lambda>q. toInt cur' \<le> toInt (ruleId q))"
    using lt by auto
  have "length (filter (\<lambda>q. toInt cur' \<le> toInt (ruleId q)) rs)
      = length (filter (\<lambda>q. toInt cur' \<le> toInt (ruleId q))
          (filter (\<lambda>q. toInt cur \<le> toInt (ruleId q)) rs))"
    unfolding filter_filter e by (rule refl)
  also have "\<dots> < length (filter (\<lambda>q. toInt cur \<le> toInt (ruleId q)) rs)"
    using r lt by (intro length_filter_less [of r]) auto
  finally show ?case by simp
qed


declare newRuleId.simps [simp del]

definition newAction :: "Env \<Rightarrow> QVariant \<Rightarrow> RuleAction" where
  "newAction env ai =
     \<lparr>aAddress = toString (mapGet (toMap ai) ''address''),
      aMethod = toString (mapGet (toMap ai) ''method''),
      aBody = envSerialize env (toMap (mapGet (toMap ai) ''body''))\<rparr>"

definition newCondition :: "QVariant \<Rightarrow> RuleCondition" where
  "newCondition ci =
     \<lparr>cAddress = toString (mapGet (toMap ci) ''address''),
      cOperator = toString (mapGet (toMap ci) ''operator''),
      cValue = toString (mapGet (toMap ci) ''value'')\<rparr>"

text \<open>
  The last block of \<open>createRule\<close>: the first stored rule with equal actions and equal
  conditions is overwritten, otherwise the new rule is appended.
\<close>

definition sameActionsConditions :: "Rule \<Rightarrow> Rule \<Rightarrow> bool" where
  "sameActionsConditions rule ri = (actions ri = actions rule \<and> conditions ri = conditions rule)"

definition storeRule :: "Rule \<Rightarrow> Rule list \<Rightarrow> Rule list" where
  "storeRule rule rs =
     (case firstIndex (sameActionsConditions rule) rs of
        Some k \<Rightarrow> rs[k := rule]
      | None \<Rightarrow> rs @ [rule])"

text \<open>The parameter checks at the head of \<open>createRule\<close>; each appends one error.\<close>

definition createRuleErrors :: "(string \<times> QVariant) list \<Rightarrow> RspItem list" where
  "createRuleErrors m =
     (let conditionsList = toList (mapGet m ''conditions'');
          actionsList = toList (mapGet m ''actions'')
      in (if \<not> mapContains m ''name''
          then [RspError ERR_MISSING_PARAMETER ''/rules/name''] else [])
       @ (if length conditionsList < 1
          then [RspError ERR_MISSING_PARAMETER ''/rules/conditions''] else [])
       @ (if length actionsList < 1
          then [RspError ERR_MISSING_PARAMETER ''/rules/actions''] else [])
       @ (if length conditionsList > 8
          then [RspError ERR_TOO_MANY_ITEMS ''/rules/conditions''] else [])
       @ (if length actionsList > 8
          then [RspError ERR_TOO_MANY_ITEMS ''/rules/actions''] else [])
       @ (if mapContains m ''status''
            \<and> \<not> (toString (mapGet m ''status'') = ''disabled''
                 \<or> toString (mapGet m ''status'') = ''enabled'')
          then [RspError ERR_INVALID_VALUE ''/rules/status''] else [])
       @ (if mapContains m ''periodic'' \<and> variantToInt (mapGet m ''periodic'') = None
          then [RspError ERR_INVALID_VALUE ''/rules/periodic''] else []))"

definition badRequest :: "RspItem list \<Rightarrow> ApiResponse" where
  "badRequest items = \<lparr>httpStatus = HttpStatusBadRequest, rspList = items\<rparr>"

definition createRule :: "Env \<Rightarrow> RuleStore \<Rightarrow> string \<Rightarrow> QVariant option \<Rightarrow> RuleStore \<times> ApiResponse" where
  "createRule env d apikey content =
     (case content of
        None \<Rightarrow> (d, badRequest [RspError ERR_INVALID_JSON ''/rules''])
      | Some var \<Rightarrow>
          let m = toMap var;
              conditionsList = toList (mapGet m ''conditions'');
              actionsList = toList (mapGet m ''actions'');
              errors = createRuleErrors m;
              rule0 = (if mapContains m ''periodic'' then
                         (case variantToInt (mapGet m ''periodic'') of
                            Some periodic \<Rightarrow> (envNewRule env)\<lparr>triggerPeriodic := periodic\<rparr>
                          | None \<Rightarrow> envNewRule env)
                       else envNewRule env)
          in if errors \<noteq> [] then (d, badRequest errors)
             else
               let name = toString (mapGet m ''name'') in
               if isString (mapGet m ''name'') \<and> name \<noteq> [] then
                 let rule1 = rule0\<lparr>ruleId := newRuleId (rules d) ''1'', ruleName := name,
                                   ruleOwner := apikey,
                                   creationtime := envCurrentDateTimeUtc env\<rparr>;
                     rule2 = (if mapContains m ''status''
                              then rule1\<lparr>ruleStatus := toString (mapGet m ''status'')\<rparr>
                              else rule1)
                 in case checkActions env actionsList of
                      Inl e \<Rightarrow> (d, badRequest [e])
                    | Inr _ \<Rightarrow>
                        let rule3 = rule2\<lparr>actions := map (newAction env) actionsList\<rparr> in
                        (case checkConditions (sensors d) conditionsList of
                           Inl e \<Rightarrow> (d, badRequest [e])
                         | Inr _ \<Rightarrow>
                             let rule4 = rule3\<lparr>conditions := map newCondition conditionsList,
                                               ruleEtag := envEtag env\<rparr>
                             in (d\<lparr>rules := storeRule rule4 (rules d),
                                   gwConfigEtag := envEtag env\<rparr>,
                                 \<lparr>httpStatus = HttpStatusOk,
                                  rspList = [RspSuccess ''id'' (VString (ruleId rule4))]\<rparr>))
               else (d, badRequest [RspError ERR_INVALID_JSON ''/rules'']))"


section \<open>PUT /api/<apikey>/rules/<id> (rest\_rules.cpp, updateRule)\<close>

definition knownRuleKey :: "string \<Rightarrow> bool" where
  "knownRuleKey k = (k = ''name'' \<or> k = ''status'' \<or> k = ''actions''
     \<or> k = ''conditions'' \<or> k = ''periodic'')"

text \<open>The parameter checks of \<open>updateRule\<close> that set the flag \<open>error\<close>.\<close>

definition updateRuleErrors :: "Env \<Rightarrow> string \<Rightarrow> (string \<times> QVariant) list \<Rightarrow> RspItem list" where
  "updateRuleErrors env i m =
     (let name = toString (mapGet m ''name'');
          conditionsList = toList (mapGet m ''conditions'');
          actionsList = toList (mapGet m ''actions'')
      in (if mapContains m ''name''
            \<and> (if isString (mapGet m ''name'') \<and> name \<noteq> []
                 then length name > envMaxRuleNameLength env else True)
          then [RspError ERR_INVALID_VALUE (''/rules/'' @ i @ ''/name'')] else [])
       @ (if mapContains m ''conditions'' \<and> length conditionsList < 1
          then [RspError ERR_MISSING_PARAMETER ''/rules/conditions''] else [])
       @ (if mapContains m ''conditions'' \<and> length conditionsList > 8
          then [RspError ERR_TOO_MANY_ITEMS ''/rules/conditions''] else [])
       @ (if mapContains m ''actions'' \<and> length actionsList < 1
          then [RspError ERR_MISSING_PARAMETER ''/rules/actions''] else [])
       @ (if mapContains m ''actions'' \<and> length actionsList > 8
          then [RspError ERR_TOO_MANY_ITEMS ''/rules/actions''] else [])
       @ (if mapContains m ''status''
            \<and> \<not> (toString (mapGet m ''status'') = ''disabled''
                 \<or> toString (mapGet m ''status'') = ''enabled'')
          then [RspError ERR_INVALID_VALUE ''/rules/status''] else [])
       @ (if mapContains m ''periodic'' \<and> variantToInt (mapGet m ''periodic'') = None
          then [RspError ERR_INVALID_VALUE ''/rules/periodic''] else []))"

text \<open>
  The local variable \<open>name\<close> after the checks: the submitted name when it is a
  non-empty string of admissible length, else the empty string.
\<close>

definition updateRuleName :: "Env \<Rightarrow> (string \<times> QVariant) list \<Rightarrow> string" where
  "updateRuleName env m =
     (let name = toString (mapGet m ''name'')
      in if mapContains m ''name'' \<and> isString (mapGet m ''name'') \<and> name \<noteq> []
            \<and> \<not> length name > envMaxRuleNameLength env
         then name else [])"

text \<open>
  The body of the loop for the rule that is found, in three parts.  Each yields the
  rule as it stands in the store at the return, whether the ETags were renewed, and
  the response.  An early return after a failed \<open>checkActions\<close> or
  \<open>checkConditions\<close> keeps what was written to the rule before it.
\<close>

definition updateRuleFinish ::
  "Env \<Rightarrow> (string \<times> QVariant) list \<Rightarrow> Rule \<Rightarrow> bool \<Rightarrow> RspItem list \<Rightarrow> Rule \<times> bool \<times> ApiResponse" where
  "updateRuleFinish env m r changed items =
     (let r1 = (if \<not> mapContains m ''status'' then r\<lparr>ruleStatus := ''enabled''\<rparr> else r);
          r2 = r1\<lparr>lastVerify := 0\<rparr>;
          r3 = (if changed then r2\<lparr>ruleEtag := envEtag env\<rparr> else r2)
      in (r3, changed, \<lparr>httpStatus = HttpStatusOk, rspList = items\<rparr>))"

definition updateRuleConditions ::
  "Env \<Rightarrow> Sensor list \<Rightarrow> string \<Rightarrow> (string \<times> QVariant) list \<Rightarrow> Rule \<Rightarrow> bool \<Rightarrow> RspItem list
     \<Rightarrow> Rule \<times> bool \<times> ApiResponse" where
  "updateRuleConditions env ss i m r changed items =
     (let conditionsList = toList (mapGet m ''conditions'')
      in if mapContains m ''conditions'' then
           (case checkConditions ss conditionsList of
              Inl e \<Rightarrow> (r, False, badRequest (items @ [e]))
            | Inr _ \<Rightarrow>
                updateRuleFinish env m (r\<lparr>conditions := map newCondition conditionsList\<rparr>) True
                  (items @ [RspSuccess (''/rules/'' @ i @ ''/conditions'') (VList conditionsList)]))
         else updateRuleFinish env m r changed items)"

definition updateRuleAt ::
  "Env \<Rightarrow> Sensor list \<Rightarrow> string \<Rightarrow> (string \<times> QVariant) list \<Rightarrow> Rule \<Rightarrow> Rule \<times> bool \<times> ApiResponse" where
  "updateRuleAt env ss i m r =
     (let name = updateRuleName env m;
          status = toString (mapGet m ''status'');
          periodic = (case variantToInt (mapGet m ''periodic'') of Some p \<Rightarrow> p | None \<Rightarrow> 0);
          actionsList = toList (mapGet m ''actions'');
          r1 = (if mapContains m ''actions'' \<or> mapContains m ''conditions''
                then r\<lparr>ruleStatus := ''disabled''\<rparr> else r);
          items1 = (if name \<noteq> []
                    then [RspSuccess (''/rules/'' @ i @ ''/name'') (VString name)] else []);
          changed1 = (name \<noteq> [] \<and> ruleName r1 \<noteq> name);
          r2 = (if name \<noteq> [] \<and> ruleName r1 \<noteq> name then r1\<lparr>ruleName := name\<rparr> else r1);
          items2 = items1 @ (if mapContains m ''status''
                    then [RspSuccess (''/rules/'' @ i @ ''/status'') (VString status)] else []);
          changed2 = (changed1 \<or> (mapContains m ''status'' \<and> ruleStatus r2 \<noteq> status));
          r3 = (if mapContains m ''status'' \<and> ruleStatus r2 \<noteq> status
                then r2\<lparr>ruleStatus := status\<rparr> else r2);
          changed3 = (changed2 \<or> (mapContains m ''periodic'' \<and> triggerPeriodic r3 \<noteq> periodic));
          r4 = (if mapContains m ''periodic'' \<and> triggerPeriodic r3 \<noteq> periodic
                then r3\<lparr>triggerPeriodic := periodic\<rparr> else r3)
      in if mapContains m ''actions'' then
           (case checkActions env actionsList of
              Inl e \<Rightarrow> (r4, False, badRequest (items2 @ [e]))
            | Inr _ \<Rightarrow>
                updateRuleConditions env ss i m
                  (r4\<lparr>actions := map (newAction env) actionsList\<rparr>) True
                  (items2 @ [RspSuccess (''/rules/'' @ i @ ''/actions'') (VList actionsList)]))
         else updateRuleConditions env ss i m r4 changed3 items2)"

text \<open>
  The handler.  The keys of the body are visited in the order of the list (a
  \<open>QVariantMap\<close> iterates in key order); the loop over the rules skips every rule
  that is not in state Normal and stops at the first one with the id.
\<close>

definition updateRule :: "Env \<Rightarrow> RuleStore \<Rightarrow> string \<Rightarrow> QVariant option \<Rightarrow> RuleStore \<times> ApiResponse" where
  "updateRule env d i content =
     (case content of
        None \<Rightarrow> (d, badRequest [RspError ERR_INVALID_JSON ''/rules''])
      | Some var \<Rightarrow>
          let m = toMap var in
          (case find (\<lambda>kv. \<not> knownRuleKey (fst kv)) m of
             Some kv \<Rightarrow>
               (d, badRequest [RspError ERR_PARAMETER_NOT_AVAILABLE
                                 (''/rules/'' @ i @ ''/'' @ fst kv)])
           | None \<Rightarrow>
               if updateRuleErrors env i m \<noteq> [] then (d, badRequest (updateRuleErrors env i m))
               else
                 (case firstIndex (\<lambda>r. ruleState r = StateNormal \<and> ruleId r = i) (rules d) of
                    None \<Rightarrow> (d, \<lparr>httpStatus = HttpStatusOk, rspList = []\<rparr>)
                  | Some k \<Rightarrow>
                      (case updateRuleAt env (sensors d) i m (rules d ! k) of
                         (r', changed, rsp) \<Rightarrow>
                           (d\<lparr>rules := (rules d)[k := r'],
                              gwConfigEtag := (if changed then envEtag env else gwConfigEtag d)\<rparr>,
                            rsp)))))"

section \<open>Lights, groups and the task queues (de\_web\_plugin.cpp)\<close>

text \<open>
  A \<open>deCONZ::Address\<close> with its three address fields; \<open>operator==\<close> on addresses
  is equality of the record.  An APS request carries the fields the plugin sets and
  compares.
\<close>

record Address =
  addrExt :: "64 word"
  addrNwk :: "16 word"
  addrGroup :: "16 word"

datatype ApsAddressMode = ApsNoAddress | ApsGroupAddress | ApsNwkAddress | ApsExtAddress

datatype ApsRequestState = NormalState | FireAndForgetState

datatype ApsStatus = Success | ErrorNodeIsZombie | ErrorOther

record ApsDataRequest =
  reqId :: "8 word"
  dstAddress :: Address
  dstAddressMode :: ApsAddressMode
  dstEndpoint :: "8 word"
  srcEndpoint :: "8 word"
  profileId :: "16 word"
  clusterId :: "16 word"
  txOptions :: "8 word"
  asdu :: "8 word list"
  reqState :: ApsRequestState

datatype TaskType =
    TaskIdentify | TaskGetHue | TaskSetHue | TaskSetEnhancedHue | TaskSetHueAndSaturation
  | TaskSetXyColor | TaskSetColorTemperature | TaskGetColor | TaskGetSat | TaskSetSat
  | TaskGetLevel | TaskSetLevel | TaskMoveLevel | TaskStopLevel | TaskSendOnOffToggle
  | TaskSetOnOff | TaskSetColorLoop | TaskGetOnOff | TaskReadAttributes | TaskWriteAttribute
  | TaskGetGroupMembership | TaskGetGroupIdentifiers | TaskGetSceneMembership
  | TaskStoreScene | TaskCallScene | TaskViewScene | TaskAddScene | TaskRemoveScene
  | TaskRemoveAllScenes | TaskAddToGroup | TaskRemoveFromGroup | TaskViewGroup

text \<open>
  A task.  The pointer \<open>lightNode\<close> is the index of the light in \<open>nodes\<close>,
  \<open>None\<close> for the null pointer.
\<close>

record TaskItem =
  taskType :: TaskType
  req :: ApsDataRequest
  lightNode :: "nat option"

datatype GroupInfoState = StateInGroup | StateNotInGroup

record GroupInfo =
  giId :: "16 word"
  giState :: GroupInfoState
  giSceneCount :: "8 word"

datatype LightNodeState = LightNormal | LightDeleted

record LightNode =
  lightId :: string
  lightAddress :: Address
  lightEndpoint :: "8 word"
  lightAvailable :: bool
  lightNodeState :: LightNodeState
  lightOn :: bool
  lightLevel :: "16 word"
  lightColorLoopActive :: bool
  lightColorLoopSpeed :: "8 word"
  groupCapacity :: "8 word"
  groupCount :: "8 word"
  sceneCapacity :: "8 word"
  lightGroups :: "GroupInfo list"
  lightEtag :: string

record LightState =
  lsLid :: string
  lsOn :: bool
  lsBri :: "8 word"
  lsColorloopActive :: bool
  lsColorloopTime :: "8 word"

datatype SceneState = SceneNormal | SceneDeleted

record Scene =
  sceneId :: "8 word"
  sceneState :: SceneState
  sceneLights :: "LightState list"

datatype GroupState = GroupNormal | GroupDeleted | GroupDeleteFromDB

text \<open>
  A group.  \<open>sendTime\<close> is a \<open>QTime\<close> in milliseconds since midnight, \<open>None\<close>
  when it is not valid.
\<close>

record Group =
  groupAddress :: "16 word"
  groupId :: string
  groupState :: GroupState
  groupOn :: bool
  groupColorLoopActive :: bool
  sendTime :: "int option"
  scenes :: "Scene list"
  deviceMemberships :: "string list"
  groupEtag :: string

text \<open>The plugin object: the rule store and the registry with the two task queues.\<close>

record Plugin = RuleStore +
  groups :: "Group list"
  nodes :: "LightNode list"
  tasks :: "TaskItem list"
  runningTasks :: "TaskItem list"
  zclSeq :: "8 word"
  gwGroupSendDelay :: int

text \<open>
  The radio controller behind \<open>apsCtrl\<close> (\<open>None\<close> for the null pointer): its
  network state, the verdict of \<open>apsdeDataRequest\<close> on a request, and the source
  endpoint that \<open>endpoint()\<close> finds for the HA profile.
\<close>

record ApsController =
  inNetwork :: bool
  apsdeDataRequest :: "ApsDataRequest \<Rightarrow> ApsStatus"
  haEndpoint :: "8 word"

definition isInNetwork :: "ApsController option \<Rightarrow> bool" where
  "isInNetwork apsCtrl = (case apsCtrl of Some c \<Rightarrow> inNetwork c | None \<Rightarrow> False)"

section \<open>Enqueueing a task (addTask)\<close>

definition alwaysAppended :: "TaskType \<Rightarrow> bool" where
  "alwaysAppended t =
     (t = TaskGetSceneMembership \<or> t = TaskGetGroupMembership \<or> t = TaskGetGroupIdentifiers
      \<or> t = TaskStoreScene \<or> t = TaskRemoveScene \<or> t = TaskRemoveAllScenes
      \<or> t = TaskReadAttributes \<or> t = TaskWriteAttribute \<or> t = TaskViewScene
      \<or> t = TaskAddScene)"

text \<open>The test under which a queued task \<open>i\<close> is overwritten by \<open>task\<close>.\<close>

definition sameRequest :: "TaskItem \<Rightarrow> TaskItem \<Rightarrow> bool" where
  "sameRequest task i =
     (taskType i = taskType task
      \<and> dstAddress (req i) = dstAddress (req task)
      \<and> dstEndpoint (req i) = dstEndpoint (req task)
      \<and> srcEndpoint (req i) = srcEndpoint (req task)
      \<and> profileId (req i) = profileId (req task)
      \<and> clusterId (req i) = clusterId (req task)
      \<and> txOptions (req i) = txOptions (req task)
      \<and> length (asdu (req i)) = length (asdu (req task)))"

definition MaxTasks :: nat where
  "MaxTasks = 20"

definition pushTask :: "'a Plugin_scheme \<Rightarrow> TaskItem \<Rightarrow> bool \<times> 'a Plugin_scheme" where
  "pushTask d task =
     (if length (tasks d) < MaxTasks then (True, d\<lparr>tasks := tasks d @ [task]\<rparr>)
      else (False, d))"

definition addTask :: "ApsController option \<Rightarrow> 'a Plugin_scheme \<Rightarrow> TaskItem \<Rightarrow> bool \<times> 'a Plugin_scheme" where
  "addTask apsCtrl d task =
     (if \<not> isInNetwork apsCtrl then (False, d)
      else if \<not> alwaysAppended (taskType task) then
        (case firstIndex (sameRequest task) (tasks d) of
           Some k \<Rightarrow> (True, d\<lparr>tasks := (tasks d)[k := task]\<rparr>)
         | None \<Rightarrow> pushTask d task)
      else pushTask d task)"

section \<open>Dispatching (processTasks) and confirms (apsdeDataConfirm)\<close>

text \<open>\<open>i->lightNode && !i->lightNode->isAvailable()\<close>.\<close>

definition lightNodeGone :: "'a Plugin_scheme \<Rightarrow> TaskItem \<Rightarrow> bool" where
  "lightNodeGone d i =
     (case lightNode i of
        None \<Rightarrow> False
      | Some k \<Rightarrow> if k < length (nodes d) then \<not> lightAvailable (nodes d ! k) else False)"

text \<open>The inner loop: some running task has the destination address of \<open>i\<close>.\<close>

definition destinationBusy :: "'a Plugin_scheme \<Rightarrow> TaskItem \<Rightarrow> bool" where
  "destinationBusy d i =
     list_ex (\<lambda>j. dstAddress (req i) = dstAddress (req j)) (runningTasks d)"

text \<open>\<open>getGroupForId(uint16_t)\<close>, as an index into \<open>groups\<close>.\<close>

definition getGroupForAddress :: "'a Plugin_scheme \<Rightarrow> 16 word \<Rightarrow> nat option" where
  "getGroupForAddress d a = firstIndex (\<lambda>g. groupAddress g = a) (groups d)"

text \<open>
  The group rate limit: \<open>diff\<close> is \<open>sendTime.msecsTo(now)\<close>; a request may go out
  when the send time is not valid, or \<open>diff \<le> 0\<close>, or \<open>diff > gwGroupSendDelay\<close>.
\<close>

definition groupMaySend :: "'a Plugin_scheme \<Rightarrow> int \<Rightarrow> Group \<Rightarrow> bool" where
  "groupMaySend d now g =
     (case sendTime g of
        None \<Rightarrow> True
      | Some t \<Rightarrow> now - t \<le> 0 \<or> now - t > gwGroupSendDelay d)"

text \<open>
  The loop over \<open>tasks\<close>.  \<open>passed\<close> holds the tasks already passed over, the list
  argument the tasks from the iterator on; every \<open>tasks.erase(i); return;\<close> leaves
  \<open>passed @ rest\<close> as the queue.
\<close>

fun processTasksLoop ::
  "ApsController \<Rightarrow> int \<Rightarrow> 'a Plugin_scheme \<Rightarrow> TaskItem list \<Rightarrow> TaskItem list \<Rightarrow> 'a Plugin_scheme" where
  "processTasksLoop c now d passed [] = d"
| "processTasksLoop c now d passed (i # rest) =
     (if lightNodeGone d i then d\<lparr>tasks := passed @ rest\<rparr>
      else if destinationBusy d i then processTasksLoop c now d (passed @ [i]) rest
      else
        let pushRunning = (reqState (req i) \<noteq> FireAndForgetState) in
        if dstAddressMode (req i) = ApsGroupAddress then
          (case getGroupForAddress d (addrGroup (dstAddress (req i))) of
             None \<Rightarrow> processTasksLoop c now d (passed @ [i]) rest
           | Some g \<Rightarrow>
               if groupMaySend d now (groups d ! g) then
                 (if apsdeDataRequest c (req i) = Success then
                    d\<lparr>groups := (groups d)[g := (groups d ! g)\<lparr>sendTime := Some now\<rparr>],
                      runningTasks := (if pushRunning then runningTasks d @ [i]
                                       else runningTasks d),
                      tasks := passed @ rest\<rparr>
                  else processTasksLoop c now d (passed @ [i]) rest)
               else processTasksLoop c now d (passed @ [i]) rest)
        else if lightNodeGone d i then d\<lparr>tasks := passed @ rest\<rparr>
        else
          (case apsdeDataRequest c (req i) of
             Success \<Rightarrow>
               d\<lparr>runningTasks := (if pushRunning then runningTasks d @ [i]
                                  else runningTasks d),
                 tasks := passed @ rest\<rparr>
           | ErrorNodeIsZombie \<Rightarrow> d\<lparr>tasks := passed @ rest\<rparr>
           | ErrorOther \<Rightarrow> processTasksLoop c now d (passed @ [i]) rest))"

definition processTasks :: "ApsController option \<Rightarrow> int \<Rightarrow> 'a Plugin_scheme \<Rightarrow> 'a Plugin_scheme" where
  "processTasks apsCtrl now d =
     (case apsCtrl of
        None \<Rightarrow> d
      | Some c \<Rightarrow>
          if tasks d = [] then d
          else if \<not> isInNetwork apsCtrl then d\<lparr>runningTasks := [], tasks := []\<rparr>
          else if length (runningTasks d) > 4 then d
          else processTasksLoop c now d [] (tasks d))"

text \<open>
  A confirm erases the first running task with the request id of the confirm and
  dispatches again.  (The read that a \<open>NoAck\<close> on a group-identifiers query
  schedules on the sensor, and the confirm handlers for bindings, channel change and
  device reset, do not touch the two queues; they are not part of the model.)
\<close>

definition apsdeDataConfirm ::
  "ApsController option \<Rightarrow> int \<Rightarrow> 'a Plugin_scheme \<Rightarrow> 8 word \<Rightarrow> 'a Plugin_scheme" where
  "apsdeDataConfirm apsCtrl now d confId =
     (case firstIndex (\<lambda>task. reqId (req task) = confId) (runningTasks d) of
        Some k \<Rightarrow>
          processTasks apsCtrl now
            (d\<lparr>runningTasks := take k (runningTasks d) @ drop (Suc k) (runningTasks d)\<rparr>)
      | None \<Rightarrow> d)"

text \<open>\<open>DeRestPlugin::refreshAll\<close> empties both queues.\<close>

definition refreshAllQueues :: "'a Plugin_scheme \<Rightarrow> 'a Plugin_scheme" where
  "refreshAllQueues d = d\<lparr>runningTasks := [], tasks := []\<rparr>"

section \<open>Group cluster responses (handleGroupClusterIndication)\<close>

text \<open>
  The fields of the data indication and of the ZCL frame that the handler reads.
  A \<open>QDataStream\<close> read past the end of the payload yields 0.
\<close>

record ApsDataIndication =
  indHasExt :: bool
  indSrcExt :: "64 word"
  indSrcEndpoint :: "8 word"

record ZclFrame =
  zclIsDefaultResponse :: bool
  zclCommandId :: "8 word"
  zclPayload :: "8 word list"

fun readU8 :: "8 word list \<Rightarrow> 8 word \<times> 8 word list" where
  "readU8 [] = (0, [])"
| "readU8 (b # bs) = (b, bs)"

fun readU16 :: "8 word list \<Rightarrow> 16 word \<times> 8 word list" where
  "readU16 (lo # hi # bs) = (word_of_int (uint lo + 256 * uint hi), bs)"
| "readU16 _ = (0, [])"

definition getLightNodeForAddress :: "'a Plugin_scheme \<Rightarrow> 64 word \<Rightarrow> 8 word \<Rightarrow> nat option" where
  "getLightNodeForAddress d extAddr endpoint =
     firstIndex (\<lambda>l. addrExt (lightAddress l) = extAddr
                       \<and> (endpoint = 0 \<or> endpoint = lightEndpoint l))
       (nodes d)"

definition getNumberOfEndpoints :: "'a Plugin_scheme \<Rightarrow> 64 word \<Rightarrow> int" where
  "getNumberOfEndpoints d extAddr =
     int (length (filter (\<lambda>l. addrExt (lightAddress l) = extAddr) (nodes d)))"

definition getGroupInfo :: "LightNode \<Rightarrow> 16 word \<Rightarrow> nat option" where
  "getGroupInfo l g = firstIndex (\<lambda>i. giId i = g) (lightGroups l)"

text \<open>
  The updates of a light on an Add group response and on a Remove group response with
  status 0.  \<open>capacity\<close> and \<open>count\<close> are \<open>uint8_t\<close>, \<open>endpointCount\<close> is an
  \<open>int\<close>: comparisons and sums are taken over the integers, an assignment cuts the
  value to 8 bits.
\<close>

definition addGroupResponse :: "int \<Rightarrow> LightNode \<Rightarrow> LightNode" where
  "addGroupResponse endpointCount l =
     (let capacity = (if uint (groupCapacity l) \<ge> endpointCount
                      then word_of_int (uint (groupCapacity l) - endpointCount)
                      else groupCapacity l);
          count = (if groupCount l < 255 then groupCount l + 1 else groupCount l)
      in l\<lparr>groupCapacity := capacity, groupCount := count\<rparr>)"

definition removeGroupResponse :: "int \<Rightarrow> 16 word \<Rightarrow> LightNode \<Rightarrow> LightNode" where
  "removeGroupResponse endpointCount g l =
     (case getGroupInfo l g of
        None \<Rightarrow> l
      | Some k \<Rightarrow>
          let sceneCount = giSceneCount (lightGroups l ! k);
              sceneCap = (if uint (sceneCapacity l) + uint sceneCount \<le> 255
                          then sceneCapacity l + sceneCount else 255);
              capacity = (if uint (groupCapacity l) + endpointCount \<le> 255
                          then word_of_int (uint (groupCapacity l) + endpointCount)
                          else groupCapacity l);
              count = (if groupCount l > 0 then groupCount l - 1 else groupCount l)
          in l\<lparr>sceneCapacity := sceneCap, groupCapacity := capacity, groupCount := count\<rparr>)"

text \<open>
  The handler.  The branch for the Get group membership response (command 0x02),
  which discovers groups and reconciles the membership of the light, is a parameter:
  \<open>membership d k payload\<close> is the plugin after that branch for the light at index
  \<open>k\<close>.
\<close>

definition handleGroupClusterIndication ::
  "('a Plugin_scheme \<Rightarrow> nat \<Rightarrow> 8 word list \<Rightarrow> 'a Plugin_scheme)
     \<Rightarrow> 'a Plugin_scheme \<Rightarrow> ApsDataIndication \<Rightarrow> ZclFrame \<Rightarrow> 'a Plugin_scheme" where
  "handleGroupClusterIndication membership d ind zclFrame =
     (if \<not> indHasExt ind then d
      else
        (case getLightNodeForAddress d (indSrcExt ind) (indSrcEndpoint ind) of
           None \<Rightarrow> d
         | Some k \<Rightarrow>
             let endpointCount = getNumberOfEndpoints d (indSrcExt ind) in
             if zclIsDefaultResponse zclFrame then d
             else if zclCommandId zclFrame = 0x02 then membership d k (zclPayload zclFrame)
             else if zclCommandId zclFrame = 0x00 then
               (case readU8 (zclPayload zclFrame) of
                  (status, s1) \<Rightarrow>
                    (case readU16 s1 of
                       (g, s2) \<Rightarrow>
                         if status = 0x00
                         then d\<lparr>nodes := (nodes d)[k := addGroupResponse endpointCount (nodes d ! k)]\<rparr>
                         else d))
             else if zclCommandId zclFrame = 0x03 then
               (case readU8 (zclPayload zclFrame) of
                  (status, s1) \<Rightarrow>
                    (case readU16 s1 of
                       (g, s2) \<Rightarrow>
                         if status = 0x00
                         then d\<lparr>nodes :=
                                (nodes d)[k := removeGroupResponse endpointCount g (nodes d ! k)]\<rparr>
                         else d))
             else d))"

text \<open>
  The update as the specification words it: \<open>count += \<Delta>\<close> and
  \<open>capacity -= \<Delta> \<sqdot> endpoint_count\<close>, each clamped to \<open>[0, 255]\<close>.
\<close>

definition clamp255 :: "int \<Rightarrow> int" where
  "clamp255 x = max 0 (min 255 x)"

definition specGroupCount :: "int \<Rightarrow> int \<Rightarrow> int" where
  "specGroupCount delta count = clamp255 (count + delta)"

definition specGroupCapacity :: "int \<Rightarrow> int \<Rightarrow> int \<Rightarrow> int" where
  "specGroupCapacity delta endpointCount capacity = clamp255 (capacity - delta * endpointCount)"

section \<open>Green-power button events (gpProcessButtonEvent)\<close>

record GpDataIndication =
  gpdSrcId :: "32 word"
  gpdCommandId :: "8 word"

text \<open>
  Functions of the plugin that the handler calls and that are defined outside the two
  source files (their bodies build ZCL frames and call \<open>addTask\<close>), with the
  default-constructed \<open>TaskItem\<close>.  They take the task by reference:
  \<open>addTaskSetColorLoop\<close> also yields the task as it leaves it.
\<close>

record TaskBuilders =
  newTaskItem :: TaskItem
  addTaskSetOnOff :: "ApsController option \<Rightarrow> Plugin \<Rightarrow> TaskItem \<Rightarrow> 8 word \<Rightarrow> 16 word \<Rightarrow> bool \<times> Plugin"
  addTaskSetColorLoop ::
    "ApsController option \<Rightarrow> Plugin \<Rightarrow> TaskItem \<Rightarrow> bool \<Rightarrow> 8 word \<Rightarrow> bool \<times> Plugin \<times> TaskItem"

text \<open>
  Constants of the headers, with their ZigBee values: profile and cluster ids, the
  on/off commands, the broadcast address for routers, the acknowledged-transmission
  option, and the ZCL frame control of a cluster command from client to server with
  the default response disabled.
\<close>

definition HA_PROFILE_ID :: "16 word" where "HA_PROFILE_ID = 0x0104"
definition ZLL_PROFILE_ID :: "16 word" where "ZLL_PROFILE_ID = 0xC05E"
definition SCENE_CLUSTER_ID :: "16 word" where "SCENE_CLUSTER_ID = 0x0005"
definition ONOFF_COMMAND_OFF :: "8 word" where "ONOFF_COMMAND_OFF = 0x00"
definition ONOFF_COMMAND_ON :: "8 word" where "ONOFF_COMMAND_ON = 0x01"
definition BroadcastRouters :: "16 word" where "BroadcastRouters = 0xFFFC"
definition ApsTxAcknowledgedTransmission :: "8 word" where "ApsTxAcknowledgedTransmission = 0x04"
definition zclFrameControlCallScene :: "8 word" where "zclFrameControlCallScene = 0x11"

text \<open>
  \<open>endpoint()\<close> and \<open>getSrcEndpoint\<close>.  (The plugin caches the endpoint it found;
  the cache is not part of the model.)
\<close>

definition endpoint :: "ApsController option \<Rightarrow> 8 word" where
  "endpoint apsCtrl = (case apsCtrl of Some c \<Rightarrow> haEndpoint c | None \<Rightarrow> 0)"

definition getSrcEndpoint :: "ApsController option \<Rightarrow> ApsDataRequest \<Rightarrow> 8 word" where
  "getSrcEndpoint apsCtrl r =
     (if profileId r = HA_PROFILE_ID \<or> profileId r = ZLL_PROFILE_ID then endpoint apsCtrl
      else 0x01)"

definition getSensorNodeForAddress :: "Plugin \<Rightarrow> 64 word \<Rightarrow> nat option" where
  "getSensorNodeForAddress d extAddr =
     (case firstIndex (\<lambda>s. sensorExt s = extAddr \<and> sensorDeletedState s \<noteq> SensorDeleted)
             (sensors d) of
        Some k \<Rightarrow> Some k
      | None \<Rightarrow> firstIndex (\<lambda>s. sensorExt s = extAddr) (sensors d))"

definition getLightNodeForId :: "Plugin \<Rightarrow> string \<Rightarrow> nat option" where
  "getLightNodeForId d i = firstIndex (\<lambda>l. lightId l = i) (nodes d)"

text \<open>\<open>getGroupForId(const QString &)\<close>: the id must read as a number up to 0xFFFF.\<close>

definition getGroupForId :: "Plugin \<Rightarrow> string \<Rightarrow> nat option" where
  "getGroupForId d i =
     (if i = [] then None
      else case toUInt i of
             None \<Rightarrow> None
           | Some gid \<Rightarrow> if gid > 0xFFFF then None
                          else firstIndex (\<lambda>g. groupId g = i) (groups d))"

definition isLightNodeInGroup :: "LightNode \<Rightarrow> 16 word \<Rightarrow> bool" where
  "isLightNodeInGroup l g = list_ex (\<lambda>i. giId i = g \<and> giState i = StateInGroup) (lightGroups l)"

text \<open>\<open>QString::split(sep)\<close>, which keeps empty parts.\<close>

fun splitOn :: "char \<Rightarrow> string \<Rightarrow> string list" where
  "splitOn sep [] = [[]]"
| "splitOn sep (x # xs) =
     (if x = sep then [] # splitOn sep xs
      else (case splitOn sep xs of p # ps \<Rightarrow> (x # p) # ps | [] \<Rightarrow> [[x]]))"

text \<open>
  The first match of the regular expression \<^verbatim>\<open>\d+\<close> in an address: the first
  maximal run of digits.
\<close>

definition firstDigits :: "string \<Rightarrow> string option" where
  "firstDigits a =
     (case dropWhile (\<lambda>c. \<not> isDigit c) a of
        [] \<Rightarrow> None
      | c # cs \<Rightarrow> Some (takeWhile isDigit (c # cs)))"

text \<open>
  The loop over the conditions of one rule.  It carries \<open>id\<close> (a local of the
  handler, so the value of the previous condition, also of a previous rule, stays
  when an address has no digits) and the flags \<open>ok\<close> and \<open>ok2\<close>.
\<close>

fun checkRuleConditions ::
  "Sensor \<Rightarrow> string \<Rightarrow> RuleCondition list \<Rightarrow> string \<times> bool \<times> bool \<Rightarrow> string \<times> bool \<times> bool" where
  "checkRuleConditions s lastUpdatedOld [] acc = acc"
| "checkRuleConditions s lastUpdatedOld (c # cs) (id0, ok, ok2) =
     (let address = cAddress c;
          id1 = (case firstDigits address of Some m \<Rightarrow> m | None \<Rightarrow> id0);
          event = (if indexOf ''buttonevent'' address \<noteq> None then ''buttonevent''
                   else ''lastupdated'');
          val = cValue c
      in if id1 \<noteq> [] \<and> id1 = sensorId s then
           checkRuleConditions s lastUpdatedOld cs
             (id1,
              (if event = ''buttonevent'' then toInt val = buttonevent s else ok),
              (if event = ''lastupdated'' then lastUpdatedOld \<noteq> lastupdated s else ok2))
         else checkRuleConditions s lastUpdatedOld cs (id1, ok, ok2))"

text \<open>
  \<open>callScene\<close>: a recall-scene command to the group, with the payload group address
  (little endian) and scene id behind the three-byte ZCL header.
\<close>

definition callScene ::
  "TaskBuilders \<Rightarrow> ApsController option \<Rightarrow> Plugin \<Rightarrow> nat \<Rightarrow> 8 word \<Rightarrow> bool \<times> Plugin" where
  "callScene tb apsCtrl d g scene =
     (let ga = groupAddress (groups d ! g);
          r0 = (req (newTaskItem tb))
                 \<lparr>txOptions := 0, dstEndpoint := 0xFF, dstAddressMode := ApsGroupAddress,
                  dstAddress := (dstAddress (req (newTaskItem tb)))\<lparr>addrGroup := ga\<rparr>,
                  clusterId := SCENE_CLUSTER_ID, profileId := HA_PROFILE_ID\<rparr>;
          r1 = r0\<lparr>srcEndpoint := getSrcEndpoint apsCtrl r0,
                  asdu := [zclFrameControlCallScene, zclSeq d, 0x05,
                           ucast ga, ucast (drop_bit 8 ga), scene]\<rparr>;
          task = (newTaskItem tb)\<lparr>taskType := TaskCallScene, req := r1\<rparr>
      in addTask apsCtrl (d\<lparr>zclSeq := zclSeq d + 1\<rparr>) task)"

text \<open>
  The setters that address a task to one light: \<open>lightNode\<close>, destination
  address, tx options, destination and source endpoint, address mode.
\<close>

definition unicastTo :: "ApsController option \<Rightarrow> TaskItem \<Rightarrow> nat \<Rightarrow> LightNode \<Rightarrow> TaskItem" where
  "unicastTo apsCtrl task2 k light =
     (let r0 = (req task2)\<lparr>dstAddress := lightAddress light,
                            txOptions := ApsTxAcknowledgedTransmission,
                            dstEndpoint := lightEndpoint light\<rparr>;
          r1 = r0\<lparr>srcEndpoint := getSrcEndpoint apsCtrl r0, dstAddressMode := ApsExtAddress\<rparr>
      in task2\<lparr>lightNode := Some k, req := r1\<rparr>)"

text \<open>
  One stored light state of a recalled scene: the colour loop, the on state and the
  level of the light are brought in line with it.  The accumulator holds the plugin,
  the task \<open>task2\<close> (declared once for all light states) and the flag
  \<open>colorloopDeactivated\<close>.
\<close>

definition recallLightState ::
  "Env \<Rightarrow> TaskBuilders \<Rightarrow> ApsController option \<Rightarrow> Plugin \<times> TaskItem \<times> bool \<Rightarrow> LightState
     \<Rightarrow> Plugin \<times> TaskItem \<times> bool" where
  "recallLightState env tb apsCtrl acc ls =
     (case acc of (d, task2, deactivated) \<Rightarrow>
        (case getLightNodeForId d (lsLid ls) of
           None \<Rightarrow> acc
         | Some k \<Rightarrow>
             let light = nodes d ! k in
             if lightAvailable light \<and> lightNodeState light \<noteq> LightDeleted then
               (case
                  (if \<not> lsColorloopActive ls
                        \<and> lightColorLoopActive light \<noteq> lsColorloopActive ls then
                     (case addTaskSetColorLoop tb apsCtrl
                             (d\<lparr>nodes := (nodes d)[k := light\<lparr>lightColorLoopActive := False\<rparr>]\<rparr>)
                             (unicastTo apsCtrl task2 k light) False 15 of
                        (b, dB, tB) \<Rightarrow> (dB, tB, True, True))
                   else if lsColorloopActive ls
                        \<and> lightColorLoopActive light \<noteq> lsColorloopActive ls then
                     (case addTaskSetColorLoop tb apsCtrl
                             (d\<lparr>nodes := (nodes d)[k := light\<lparr>lightColorLoopActive := True,
                                    lightColorLoopSpeed := lsColorloopTime ls\<rparr>]\<rparr>)
                             (unicastTo apsCtrl task2 k light) True (lsColorloopTime ls) of
                        (b, dB, tB) \<Rightarrow> (dB, tB, True, deactivated))
                   else (d, task2, False, deactivated)) of
                  (d1, t1, changed1, deactivated1) \<Rightarrow>
                    let l1 = nodes d1 ! k;
                        l2 = (if lsOn ls \<and> \<not> lightOn l1 then l1\<lparr>lightOn := True\<rparr> else l1);
                        l3 = (if \<not> lsOn ls \<and> lightOn l2 then l2\<lparr>lightOn := False\<rparr> else l2);
                        l4 = (if ucast (lsBri ls) \<noteq> lightLevel l3
                              then l3\<lparr>lightLevel := ucast (lsBri ls)\<rparr> else l3);
                        changed = (changed1 \<or> (lsOn ls \<and> \<not> lightOn l1)
                                   \<or> (\<not> lsOn ls \<and> lightOn l2)
                                   \<or> ucast (lsBri ls) \<noteq> lightLevel l3);
                        l5 = (if changed then l4\<lparr>lightEtag := envEtag env\<rparr> else l4)
                    in (d1\<lparr>nodes := (nodes d1)[k := l5]\<rparr>, t1, deactivated1))
             else acc))"

text \<open>
  An action on a scene address: recall the scene in the group, reconcile the lights
  of the stored scene, recall again when a colour loop was stopped, mark the group
  as on and dispatch.
\<close>

definition sceneAction ::
  "Env \<Rightarrow> TaskBuilders \<Rightarrow> ApsController option \<Rightarrow> int \<Rightarrow> Plugin \<Rightarrow> RuleAction \<Rightarrow> Plugin" where
  "sceneAction env tb apsCtrl now d a =
     (let idList = splitOn CHR ''/'' (aAddress a) in
      if length idList < 5 then d
      else
        let gid = idList ! 2; sid = idList ! 4 in
        (case getGroupForId d gid of
           None \<Rightarrow> d
         | Some g \<Rightarrow>
             if groupState (groups d ! g) \<noteq> GroupDeleted
                \<and> groupState (groups d ! g) \<noteq> GroupDeleteFromDB then
               (case callScene tb apsCtrl d g (word_of_int (toInt sid)) of
                  (called, d1) \<Rightarrow>
                    if \<not> called then d1
                    else
                      let d2 = (case find (\<lambda>i. uint (sceneId i) = toInt sid
                                                \<and> sceneState i \<noteq> SceneDeleted)
                                       (scenes (groups d1 ! g)) of
                                  None \<Rightarrow> d1
                                | Some scene \<Rightarrow>
                                    (case foldl (recallLightState env tb apsCtrl)
                                            (d1, newTaskItem tb, False) (sceneLights scene) of
                                       (dL, t, deactivated) \<Rightarrow>
                                         if deactivated
                                         then snd (callScene tb apsCtrl dL g (word_of_int (toInt sid)))
                                         else dL));
                          d3 = (if \<not> groupOn (groups d2 ! g)
                                then d2\<lparr>groups := (groups d2)[g := (groups d2 ! g)
                                         \<lparr>groupOn := True, groupEtag := envEtag env\<rparr>]\<rparr>
                                else d2)
                      in processTasks apsCtrl now (d3\<lparr>gwConfigEtag := envEtag env\<rparr>))
             else d))"

text \<open>
  An action on a group address.  \<open>target\<close> is \<open>None\<close> for the group id 0 (a
  broadcast to all routers) and the index of the group otherwise.
\<close>

definition inTarget :: "Plugin \<Rightarrow> nat option \<Rightarrow> LightNode \<Rightarrow> bool" where
  "inTarget d target l =
     (case target of
        None \<Rightarrow> True
      | Some g \<Rightarrow> isLightNodeInGroup l (groupAddress (groups d ! g)))"

definition groupOff ::
  "Env \<Rightarrow> TaskBuilders \<Rightarrow> ApsController option \<Rightarrow> Plugin \<Rightarrow> TaskItem \<Rightarrow> nat option \<Rightarrow> Plugin" where
  "groupOff env tb apsCtrl d task target =
     (case addTaskSetOnOff tb apsCtrl d task ONOFF_COMMAND_OFF 0 of
        (sent, d1) \<Rightarrow>
          if \<not> sent then d1
          else
            let d2 = (case target of
                        None \<Rightarrow> d1
                      | Some g \<Rightarrow> d1\<lparr>groups := (groups d1)[g := (groups d1 ! g)
                                       \<lparr>groupOn := False, groupEtag := envEtag env\<rparr>]\<rparr>)
            in d2\<lparr>nodes := map (\<lambda>l. if inTarget d2 target l
                                       then l\<lparr>lightOn := False, lightEtag := envEtag env\<rparr>
                                       else l) (nodes d2)\<rparr>)"

definition lightOnStep ::
  "Env \<Rightarrow> TaskBuilders \<Rightarrow> ApsController option \<Rightarrow> nat option \<Rightarrow> Plugin \<Rightarrow> nat \<Rightarrow> Plugin" where
  "lightOnStep env tb apsCtrl target d k =
     (let l = nodes d ! k in
      if inTarget d target l then
        let l1 = l\<lparr>lightOn := True\<rparr>;
            dA = d\<lparr>nodes := (nodes d)[k := l1]\<rparr>
        in if lightAvailable l1 \<and> lightNodeState l1 \<noteq> LightDeleted \<and> lightColorLoopActive l1
           then
             (case addTaskSetColorLoop tb apsCtrl dA (unicastTo apsCtrl (newTaskItem tb) k l1)
                     False 15 of
                (b, dB, t) \<Rightarrow>
                  dB\<lparr>nodes := (nodes dB)[k := (nodes dB ! k)
                         \<lparr>lightColorLoopActive := False, lightEtag := envEtag env\<rparr>]\<rparr>)
           else dA\<lparr>nodes := (nodes dA)[k := l1\<lparr>lightEtag := envEtag env\<rparr>]\<rparr>
      else d)"

definition groupOnAction ::
  "Env \<Rightarrow> TaskBuilders \<Rightarrow> ApsController option \<Rightarrow> Plugin \<Rightarrow> TaskItem \<Rightarrow> nat option \<Rightarrow> Plugin" where
  "groupOnAction env tb apsCtrl d task target =
     (case addTaskSetOnOff tb apsCtrl d task ONOFF_COMMAND_ON 0 of
        (sent, d1) \<Rightarrow>
          if \<not> sent then d1
          else
            let d2 =
              (case target of
                 None \<Rightarrow> d1
               | Some g \<Rightarrow>
                   let grp = (groups d1 ! g)\<lparr>groupOn := True\<rparr>;
                       dA = d1\<lparr>groups := (groups d1)[g := grp]\<rparr>
                   in if groupColorLoopActive grp then
                        let r0 = (req (newTaskItem tb))
                                   \<lparr>dstAddress := (dstAddress (req (newTaskItem tb)))
                                                    \<lparr>addrGroup := groupAddress grp\<rparr>,
                                    dstAddressMode := ApsGroupAddress, dstEndpoint := 0xFF\<rparr>;
                            task1 = (newTaskItem tb)\<lparr>req := r0\<lparr>srcEndpoint := getSrcEndpoint apsCtrl r0\<rparr>\<rparr>
                        in (case addTaskSetColorLoop tb apsCtrl dA task1 False 15 of
                              (b, dB, t) \<Rightarrow>
                                dB\<lparr>groups := (groups dB)[g := (groups dB ! g)
                                       \<lparr>groupColorLoopActive := False,
                                        groupEtag := envEtag env\<rparr>]\<rparr>)
                      else dA\<lparr>groups := (groups dA)[g := grp\<lparr>groupEtag := envEtag env\<rparr>]\<rparr>)
            in foldl (lightOnStep env tb apsCtrl target) d2 [0..<length (nodes d2)])"

definition groupAction ::
  "Env \<Rightarrow> TaskBuilders \<Rightarrow> ApsController option \<Rightarrow> Plugin \<Rightarrow> TaskItem \<Rightarrow> RuleAction \<Rightarrow> Plugin" where
  "groupAction env tb apsCtrl d task a =
     (let idList = splitOn CHR ''/'' (aAddress a); body = aBody a in
      if length idList < 3 then d
      else
        let gid = idList ! 2 in
        if gid \<noteq> ''0'' \<and> getGroupForId d gid = None then d
        else
          let target = (if gid \<noteq> ''0'' then getGroupForId d gid else None);
              r = (case target of
                     Some g \<Rightarrow>
                       (req task)\<lparr>dstAddressMode := ApsGroupAddress,
                                  dstAddress := (dstAddress (req task))
                                                  \<lparr>addrGroup := groupAddress (groups d ! g)\<rparr>\<rparr>
                   | None \<Rightarrow>
                       (req task)\<lparr>dstAddressMode := ApsNwkAddress,
                                  dstAddress := (dstAddress (req task))
                                                  \<lparr>addrNwk := BroadcastRouters\<rparr>\<rparr>);
              task1 = task\<lparr>req := r\<lparr>reqState := FireAndForgetState\<rparr>\<rparr>;
              d1 = (if containsStr body ''on'' \<and> containsStr body ''false''
                    then groupOff env tb apsCtrl d task1 target
                    else if containsStr body ''on'' \<and> containsStr body ''true''
                    then groupOnAction env tb apsCtrl d task1 target
                    else d)
          in d1\<lparr>gwConfigEtag := envEtag env\<rparr>)"

text \<open>One action of a rule that fired.  An action on a light is not implemented.\<close>

definition executeAction ::
  "Env \<Rightarrow> TaskBuilders \<Rightarrow> ApsController option \<Rightarrow> int \<Rightarrow> Plugin \<Rightarrow> RuleAction \<Rightarrow> Plugin" where
  "executeAction env tb apsCtrl now d a =
     (let r0 = (req (newTaskItem tb))\<lparr>dstEndpoint := 0xFF\<rparr>;
          task = (newTaskItem tb)\<lparr>req := r0\<lparr>srcEndpoint := getSrcEndpoint apsCtrl r0\<rparr>\<rparr>
      in if indexOf ''scenes'' (aAddress a) \<noteq> None then sceneAction env tb apsCtrl now d a
         else if indexOf ''lights'' (aAddress a) \<noteq> None then d
         else if indexOf ''groups'' (aAddress a) \<noteq> None then groupAction env tb apsCtrl d task a
         else d)"

text \<open>
  The loop over the rules, by index.  A rule that is not Deleted and for which both
  \<open>ok\<close> and \<open>ok2\<close> hold after its conditions runs its actions; then the rule that
  \<open>getRuleForId\<close> finds for its id gets the trigger time and the incremented
  trigger count.
\<close>

definition gpRuleStep ::
  "Env \<Rightarrow> TaskBuilders \<Rightarrow> ApsController option \<Rightarrow> int \<Rightarrow> Sensor \<Rightarrow> string
     \<Rightarrow> Plugin \<times> string \<Rightarrow> nat \<Rightarrow> Plugin \<times> string" where
  "gpRuleStep env tb apsCtrl now sensor lastUpdatedOld acc ri =
     (case acc of (d, id0) \<Rightarrow>
        let r = rules d ! ri in
        if ruleState r \<noteq> StateDeleted then
          (case checkRuleConditions sensor lastUpdatedOld (conditions r) (id0, False, False) of
             (id1, ok, ok2) \<Rightarrow>
               if ok \<and> ok2 then
                 let d1 = foldl (executeAction env tb apsCtrl now) d (actions r);
                     r1 = rules d1 ! ri
                 in (case getRuleForId (rules d1) (ruleId r1) of
                       Some j \<Rightarrow>
                         (d1\<lparr>rules := (rules d1)[j := (rules d1 ! j)
                                \<lparr>lastTriggered := envCurrentDateTimeUtc env,
                                 timesTriggered := timesTriggered r1 + 1\<rparr>]\<rparr>, id1)
                     | None \<Rightarrow> (d1, id1))
               else (d, id1))
        else acc)"

text \<open>
  The handler: look the sensor up by the source id, store the button code and the
  time stamp, then scan the rules.
\<close>

definition gpProcessButtonEvent ::
  "Env \<Rightarrow> TaskBuilders \<Rightarrow> ApsController option \<Rightarrow> int \<Rightarrow> Plugin \<Rightarrow> GpDataIndication \<Rightarrow> Plugin" where
  "gpProcessButtonEvent env tb apsCtrl now d ind =
     (case getSensorNodeForAddress d (ucast (gpdSrcId ind)) of
        None \<Rightarrow> d
      | Some k \<Rightarrow>
          if sensorDeletedState (sensors d ! k) = SensorDeleted then d
          else
            let lastUpdatedOld = lastupdated (sensors d ! k);
                sensor = (sensors d ! k)\<lparr>buttonevent := uint (gpdCommandId ind),
                                          lastupdated := envCurrentDateTimeUtc env,
                                          sensorEtag := envEtag env\<rparr>;
                d1 = d\<lparr>sensors := (sensors d)[k := sensor]\<rparr>
            in fst (foldl (gpRuleStep env tb apsCtrl now sensor lastUpdatedOld) (d1, [])
                      [0..<length (rules d1)]))"

text \<open>A rule all of whose conditions have \<open>buttonevent\<close> in their address.\<close>

definition buttoneventOnly :: "Rule \<Rightarrow> bool" where
  "buttoneventOnly r = list_all (\<lambda>c. indexOf ''buttonevent'' (cAddress c) \<noteq> None) (conditions r)"

section \<open>Illuminance decoding (updateSensorNode)\<close>

text \<open>
  The branch of \<open>updateSensorNode\<close> for attribute 0x0000 of the illuminance
  measurement cluster, for a sensor that passed the address, endpoint and cluster
  filters.  \<open>z\<close> is the 16-bit attribute value.  The floating-point function
  \<open>qPow\<close> is a parameter, taken as a function on the reals; the quotient
  \<open>exp / 10000.0f\<close> and the difference \<open>l - 1\<close> are taken over the reals
  (rounding is not modelled), and \<open>static_cast<quint32>\<close> truncates.
\<close>

definition decodeIlluminance :: "(real \<Rightarrow> real \<Rightarrow> real) \<Rightarrow> string \<Rightarrow> 16 word \<Rightarrow> 32 word" where
  "decodeIlluminance qPow model z =
     (let lux0 = (ucast z :: 32 word) in
      if prefix ''FLS-NB'' model then lux0
      else if lux0 > 0 \<and> lux0 < 0xffff then
        (let l = qPow 10 (real (unat lux0) / 10000) in
         if l \<ge> 1 then word_of_int \<lfloor>l - 1\<rfloor> else 0xffff)
      else lux0)"

text \<open>
  The state update that follows: \<open>updateTime\<close> stamps \<open>lastupdated\<close>, and the
  lux value and the ETag are written when the value differs from the stored one.
  (The attribute cache entry and the configuration ETag are not part of the model.)
\<close>

definition setMeasuredIlluminance ::
  "Env \<Rightarrow> (real \<Rightarrow> real \<Rightarrow> real) \<Rightarrow> Sensor \<Rightarrow> 16 word \<Rightarrow> Sensor" where
  "setMeasuredIlluminance env qPow s z =
     (let l = decodeIlluminance qPow (sensorModelId s) z;
          s1 = s\<lparr>lastupdated := envCurrentDateTimeUtc env\<rparr>
      in if lux s1 \<noteq> l then s1\<lparr>lux := l, sensorEtag := envEtag env\<rparr> else s1)"

section \<open>Reachable states of the pipeline\<close>

text \<open>
  The states the two queues can reach: from empty queues, by \<open>addTask\<close>,
  \<open>processTasks\<close>, \<open>apsdeDataConfirm\<close> and \<open>refreshAll\<close> under any radio
  controller, any clock and any argument, and by any other handler of the plugin,
  which may change the registry but leaves both queues as they are (these four are
  the only functions of the source that write \<open>tasks\<close> or \<open>runningTasks\<close>).
\<close>

inductive reachable :: "Plugin \<Rightarrow> bool" where
  start: "tasks d = [] \<Longrightarrow> runningTasks d = [] \<Longrightarrow> reachable d"
| enqueue: "reachable d \<Longrightarrow> reachable (snd (addTask apsCtrl d task))"
| dispatch: "reachable d \<Longrightarrow> reachable (processTasks apsCtrl now d)"
| confirm: "reachable d \<Longrightarrow> reachable (apsdeDataConfirm apsCtrl now d confId)"
| refresh: "reachable d \<Longrightarrow> reachable (refreshAllQueues d)"
| registry: "reachable d \<Longrightarrow> tasks d' = tasks d \<Longrightarrow> runningTasks d' = runningTasks d
               \<Longrightarrow> reachable d'"

definition destinations :: "TaskItem list \<Rightarrow> Address list" where
  "destinations ts = map (\<lambda>t. dstAddress (req t)) ts"

section \<open>Example data\<close>

text \<open>
  Concrete values on which the theorems below are instantiated: a default rule, an
  environment whose serializer prints an empty object as \<open>{}\<close>, a green-power switch
  with id 5, a daylight sensor with id 1, and the body of the rule of the
  button-to-scene scenario.
\<close>

definition defaultRule :: Rule where
  "defaultRule =
     \<lparr>ruleId = [], ruleName = [], ruleOwner = [], ruleStatus = ''enabled'',
      ruleState = StateNormal, triggerPeriodic = 0, conditions = [], actions = [],
      creationtime = [], lastTriggered = ''none'', timesTriggered = 0, ruleEtag = [],
      lastVerify = 0\<rparr>"

definition exampleEnv :: "string \<Rightarrow> Env" where
  "exampleEnv etag =
     \<lparr>envNewRule = defaultRule, envCurrentDateTimeUtc = ''2016-01-01T00:00:00'',
      envEtag = etag, envSerialize = (\<lambda>m. if m = [] then ''{}'' else ''{...}''),
      envParseOk = (\<lambda>s. True), envMaxRuleNameLength = 32\<rparr>"

definition gpSwitch5 :: Sensor where
  "gpSwitch5 =
     \<lparr>sensorId = ''5'', sensorType = ''ZGPSwitch'', sensorExt = 0x1234,
      sensorModelId = ''ZGPSWITCH'', sensorDeletedState = SensorNormal, buttonevent = 0,
      lastupdated = [], lux = 0, sensorEtag = []\<rparr>"

definition daylightSensor1 :: Sensor where
  "daylightSensor1 =
     \<lparr>sensorId = ''1'', sensorType = ''DaylightSensor'', sensorExt = 0,
      sensorModelId = [], sensorDeletedState = SensorNormal, buttonevent = 0,
      lastupdated = [], lux = 0, sensorEtag = []\<rparr>"

definition sceneConditions :: QVariant where
  "sceneConditions =
     VList [VMap [(''address'', VString ''/sensors/5/state/buttonevent''),
                  (''operator'', VString ''eq''), (''value'', VString ''16'')]]"

definition sceneActions :: QVariant where
  "sceneActions =
     VList [VMap [(''address'', VString ''/groups/3/scenes/10''),
                  (''method'', VString ''PUT''), (''body'', VMap [])]]"

definition sceneRuleBody :: QVariant where
  "sceneRuleBody =
     VMap [(''name'', VString ''scene''), (''conditions'', sceneConditions),
           (''actions'', sceneActions)]"

text \<open>
  A second body with the same conditions and actions, another name, the status
  \<open>disabled\<close> and a period of \<open>2^32\<close>, which the 32-bit \<open>int\<close> holds as 0.
\<close>

definition periodicRuleBody :: QVariant where
  "periodicRuleBody =
     VMap [(''name'', VString ''again''), (''status'', VString ''disabled''),
           (''periodic'', VInt 4294967296), (''conditions'', sceneConditions),
           (''actions'', sceneActions)]"

definition store0 :: RuleStore where
  "store0 = \<lparr>rules = [], sensors = [gpSwitch5], gwConfigEtag = []\<rparr>"

text \<open>The store after \<open>POST sceneRuleBody\<close> on the empty store: one rule, id 1.\<close>

definition store1 :: RuleStore where
  "store1 = fst (createRule (exampleEnv ''e1'') store0 ''key'' (Some sceneRuleBody))"

text \<open>
  A second rule on button code 17, and the store after a PUT that gives that rule the
  conditions of the first: two rules with equal conditions and equal actions.
\<close>

definition sceneRuleBody17 :: QVariant where
  "sceneRuleBody17 =
     VMap [(''name'', VString ''other''),
           (''conditions'',
              VList [VMap [(''address'', VString ''/sensors/5/state/buttonevent''),
                           (''operator'', VString ''eq''), (''value'', VString ''17'')]]),
           (''actions'', sceneActions)]"

definition store2 :: RuleStore where
  "store2 = fst (createRule (exampleEnv ''e2'') store1 ''key'' (Some sceneRuleBody17))"

definition store3 :: RuleStore where
  "store3 = fst (updateRule (exampleEnv ''e3'') store2 ''2''
                   (Some (VMap [(''conditions'', sceneConditions)])))"

text \<open>
  Bodies for PUT: one that disables rule 1, one that only renames it, one that repeats
  its current name, period and status, one that gives the period as \<open>2^32\<close> (0 as a
  32-bit \<open>int\<close>), one whose action has an address that \<open>checkActions\<close> rejects,
  and one that repeats its current actions and conditions.
\<close>

definition storeDisabled :: RuleStore where
  "storeDisabled = fst (updateRule (exampleEnv ''e2'') store1 ''1''
                          (Some (VMap [(''status'', VString ''disabled'')])))"

definition renameBody :: QVariant where
  "renameBody = VMap [(''name'', VString ''renamed'')]"

definition sameFieldsBody :: QVariant where
  "sameFieldsBody = VMap [(''name'', VString ''scene''), (''periodic'', VInt 0),
                          (''status'', VString ''enabled'')]"

definition wrappedPeriodBody :: QVariant where
  "wrappedPeriodBody = VMap [(''periodic'', VInt 4294967296)]"

definition badActionBody :: QVariant where
  "badActionBody =
     VMap [(''actions'',
            VList [VMap [(''address'', VString ''/outlets/1''), (''method'', VString ''PUT''),
                         (''body'', VMap [])]])]"

definition resubmitBody :: QVariant where
  "resubmitBody = VMap [(''actions'', sceneActions), (''conditions'', sceneConditions)]"

text \<open>
  A radio controller that is in the network and accepts every request, a plugin with
  empty queues, unicast tasks, a queue with two tasks to the same destination, and a
  queue filled with 20 on/off tasks to 20 destinations.
\<close>

definition exampleController :: ApsController where
  "exampleController = \<lparr>inNetwork = True, apsdeDataRequest = (\<lambda>r. Success), haEndpoint = 1\<rparr>"

definition emptyPlugin :: Plugin where
  "emptyPlugin =
     \<lparr>rules = [], sensors = [gpSwitch5], gwConfigEtag = [], groups = [], nodes = [],
      tasks = [], runningTasks = [], zclSeq = 0, gwGroupSendDelay = 50\<rparr>"

definition unicastTask :: "TaskType \<Rightarrow> 64 word \<Rightarrow> 8 word list \<Rightarrow> TaskItem" where
  "unicastTask t ext payload =
     \<lparr>taskType = t,
      req = \<lparr>reqId = 1, dstAddress = \<lparr>addrExt = ext, addrNwk = 0, addrGroup = 0\<rparr>,
             dstAddressMode = ApsExtAddress, dstEndpoint = 1, srcEndpoint = 1,
             profileId = 0x0104, clusterId = 0x0006, txOptions = 0, asdu = payload,
             reqState = NormalState\<rparr>,
      lightNode = None\<rparr>"

definition twoToOne :: Plugin where
  "twoToOne =
     snd (addTask (Some exampleController)
            (snd (addTask (Some exampleController) emptyPlugin (unicastTask TaskSetOnOff 7 [1])))
            (unicastTask TaskSetLevel 7 [2]))"

definition fullQueue :: Plugin where
  "fullQueue =
     fold (\<lambda>n d. snd (addTask (Some exampleController) d (unicastTask TaskSetOnOff (of_nat n) [0])))
       [1..<21] emptyPlugin"

text \<open>
  A node with two endpoints, each a light with the given group capacity and group
  count and a membership entry for group 4; an indication from its endpoint 1; group
  cluster responses with status 0 for group 4; and a membership branch that does
  nothing.
\<close>

definition exampleLight :: "string \<Rightarrow> 64 word \<Rightarrow> 8 word \<Rightarrow> 8 word \<Rightarrow> 8 word \<Rightarrow> LightNode" where
  "exampleLight i ext ep cap cnt =
     \<lparr>lightId = i, lightAddress = \<lparr>addrExt = ext, addrNwk = 0, addrGroup = 0\<rparr>,
      lightEndpoint = ep, lightAvailable = True,
      lightNodeState = LightNormal, lightOn = False, lightLevel = 0,
      lightColorLoopActive = False, lightColorLoopSpeed = 0, groupCapacity = cap,
      groupCount = cnt, sceneCapacity = 16,
      lightGroups = [\<lparr>giId = 4, giState = StateInGroup, giSceneCount = 0\<rparr>],
      lightEtag = []\<rparr>"

definition twoEndpoints :: "8 word \<Rightarrow> 8 word \<Rightarrow> Plugin" where
  "twoEndpoints cap cnt =
     \<lparr>rules = [], sensors = [], gwConfigEtag = [], groups = [],
      nodes = [exampleLight ''1'' 9 1 cap cnt, exampleLight ''2'' 9 2 cap cnt],
      tasks = [], runningTasks = [], zclSeq = 0, gwGroupSendDelay = 50\<rparr>"

definition fromEndpoint1 :: ApsDataIndication where
  "fromEndpoint1 = \<lparr>indHasExt = True, indSrcExt = 9, indSrcEndpoint = 1\<rparr>"

definition groupResponse :: "8 word \<Rightarrow> ZclFrame" where
  "groupResponse cmd = \<lparr>zclIsDefaultResponse = False, zclCommandId = cmd, zclPayload = [0, 4, 0]\<rparr>"

definition noMembership :: "Plugin \<Rightarrow> nat \<Rightarrow> 8 word list \<Rightarrow> Plugin" where
  "noMembership d k payload = d"

text \<open>An illuminance sensor with id 7 and a stored lux value of 150.\<close>

definition lightSensor7 :: Sensor where
  "lightSensor7 =
     \<lparr>sensorId = ''7'', sensorType = ''ZHALight'', sensorExt = 0x77,
      sensorModelId = ''LUX-1'', sensorDeletedState = SensorNormal, buttonevent = 0,
      lastupdated = [], lux = 150, sensorEtag = []\<rparr>"

text \<open>
  For the button-to-scene scenario: a default task, task builders that write a short
  ZCL frame and call \<open>addTask\<close>, group 3 with scene 10, a plugin with that group
  and the switch with id 5, the indication of button code 16 from the switch, a rule
  body with a second condition on \<open>lastupdated\<close>, and a summary of what an event
  left behind: the queued and the running tasks (type and group address), the trigger
  counts of the rules and the button codes of the sensors.
\<close>

definition defaultTaskItem :: TaskItem where
  "defaultTaskItem =
     \<lparr>taskType = TaskIdentify,
      req = \<lparr>reqId = 0, dstAddress = \<lparr>addrExt = 0, addrNwk = 0, addrGroup = 0\<rparr>,
             dstAddressMode = ApsNoAddress, dstEndpoint = 0, srcEndpoint = 0,
             profileId = 0, clusterId = 0, txOptions = 0, asdu = [],
             reqState = NormalState\<rparr>,
      lightNode = None\<rparr>"

definition exampleBuilders :: TaskBuilders where
  "exampleBuilders =
     \<lparr>newTaskItem = defaultTaskItem,
      addTaskSetOnOff = (\<lambda>apsCtrl d task cmd ontime.
         addTask apsCtrl (d\<lparr>zclSeq := zclSeq d + 1\<rparr>)
           (task\<lparr>taskType := TaskSetOnOff,
                 req := (req task)\<lparr>clusterId := 0x0006, profileId := HA_PROFILE_ID,
                                    asdu := [0x11, zclSeq d, cmd]\<rparr>\<rparr>)),
      addTaskSetColorLoop = (\<lambda>apsCtrl d task active speed.
         let t = task\<lparr>taskType := TaskSetColorLoop,
                      req := (req task)\<lparr>clusterId := 0x0300, profileId := HA_PROFILE_ID,
                                         asdu := [0x11, zclSeq d, 0x44, of_bool active, speed]\<rparr>\<rparr>
         in (fst (addTask apsCtrl (d\<lparr>zclSeq := zclSeq d + 1\<rparr>) t),
             snd (addTask apsCtrl (d\<lparr>zclSeq := zclSeq d + 1\<rparr>) t), t))\<rparr>"

definition group3 :: Group where
  "group3 =
     \<lparr>groupAddress = 3, groupId = ''3'', groupState = GroupNormal, groupOn = False,
      groupColorLoopActive = False, sendTime = None,
      scenes = [\<lparr>sceneId = 10, sceneState = SceneNormal, sceneLights = []\<rparr>],
      deviceMemberships = [], groupEtag = []\<rparr>"

definition buttonPlugin :: "Rule list \<Rightarrow> Plugin" where
  "buttonPlugin rs = emptyPlugin\<lparr>rules := rs, groups := [group3]\<rparr>"

definition button16 :: GpDataIndication where
  "button16 = \<lparr>gpdSrcId = 0x1234, gpdCommandId = 16\<rparr>"

definition sceneAndUpdatedBody :: QVariant where
  "sceneAndUpdatedBody =
     VMap [(''name'', VString ''scene''),
           (''conditions'',
              VList [VMap [(''address'', VString ''/sensors/5/state/buttonevent''),
                           (''operator'', VString ''eq''), (''value'', VString ''16'')],
                     VMap [(''address'', VString ''/sensors/5/state/lastupdated''),
                           (''operator'', VString ''dx'')]]),
           (''actions'', sceneActions)]"

definition storeBoth :: RuleStore where
  "storeBoth = fst (createRule (exampleEnv ''e1'') store0 ''key'' (Some sceneAndUpdatedBody))"

definition triggerSummary ::
  "Plugin \<Rightarrow> (TaskType \<times> 16 word) list \<times> (TaskType \<times> 16 word) list \<times> int list \<times> int list" where
  "triggerSummary d =
     (map (\<lambda>t. (taskType t, addrGroup (dstAddress (req t)))) (tasks d),
      map (\<lambda>t. (taskType t, addrGroup (dstAddress (req t)))) (runningTasks d),
      map timesTriggered (rules d),
      map buttonevent (sensors d))"

section \<open>Lookup loops\<close>

lemma firstIndex_None: "firstIndex P xs = None \<longleftrightarrow> (\<forall>x \<in> set xs. \<not> P x)"
  by (induction xs) auto

lemma firstIndex_Some:
  "firstIndex P xs = Some k \<longleftrightarrow> k < length xs \<and> P (xs ! k) \<and> (\<forall>j < k. \<not> P (xs ! j))"
proof (induction xs arbitrary: k)
  case Nil
  then show ?case by simp
next
  case (Cons x xs)
  show ?case
  proof (cases "P x")
    case True
    then show ?thesis by (cases k) auto
  next
    case False
    show ?thesis
    proof (cases k)
      case 0
      with False show ?thesis by auto
    next
      case (Suc m)
      have "(\<forall>j < Suc m. \<not> P ((x # xs) ! j)) \<longleftrightarrow> (\<forall>j < m. \<not> P (xs ! j))"
        using False by (auto simp: less_Suc_eq_0_disj)
      with False Suc Cons.IH [of m] show ?thesis by auto
    qed
  qed
qed

text \<open>
  C9.  \<open>getRuleForId\<close> returns the first rule with the given id that is not in state
  Deleted when there is one; when every rule with the id is Deleted it falls back to
  the first rule with that id (a Deleted one); it returns the null pointer exactly
  when no rule at all carries the id.
\<close>

theorem getRuleForId_contract:
  "((\<exists>r \<in> set rs. ruleId r = i \<and> ruleState r \<noteq> StateDeleted) \<longrightarrow>
      (\<exists>k. getRuleForId rs i = Some k \<and> k < length rs
          \<and> ruleId (rs ! k) = i \<and> ruleState (rs ! k) \<noteq> StateDeleted
          \<and> (\<forall>j < k. \<not> (ruleId (rs ! j) = i \<and> ruleState (rs ! j) \<noteq> StateDeleted))))
   \<and> ((\<forall>r \<in> set rs. ruleId r = i \<longrightarrow> ruleState r = StateDeleted)
        \<and> (\<exists>r \<in> set rs. ruleId r = i) \<longrightarrow>
      (\<exists>k. getRuleForId rs i = Some k \<and> k < length rs
          \<and> ruleId (rs ! k) = i \<and> ruleState (rs ! k) = StateDeleted
          \<and> (\<forall>j < k. ruleId (rs ! j) \<noteq> i)))
   \<and> (getRuleForId rs i = None \<longleftrightarrow> (\<forall>r \<in> set rs. ruleId r \<noteq> i))"
proof (intro conjI impI)
  assume "\<exists>r \<in> set rs. ruleId r = i \<and> ruleState r \<noteq> StateDeleted"
  then obtain k where
    k: "firstIndex (\<lambda>r. ruleId r = i \<and> ruleState r \<noteq> StateDeleted) rs = Some k"
    using firstIndex_None [of "\<lambda>r. ruleId r = i \<and> ruleState r \<noteq> StateDeleted" rs]
    by (cases "firstIndex (\<lambda>r. ruleId r = i \<and> ruleState r \<noteq> StateDeleted) rs") auto
  then have "getRuleForId rs i = Some k" by (simp add: getRuleForId_def)
  with k show "\<exists>k. getRuleForId rs i = Some k \<and> k < length rs
          \<and> ruleId (rs ! k) = i \<and> ruleState (rs ! k) \<noteq> StateDeleted
          \<and> (\<forall>j < k. \<not> (ruleId (rs ! j) = i \<and> ruleState (rs ! j) \<noteq> StateDeleted))"
    by (simp add: firstIndex_Some)
next
  assume a: "(\<forall>r \<in> set rs. ruleId r = i \<longrightarrow> ruleState r = StateDeleted)
        \<and> (\<exists>r \<in> set rs. ruleId r = i)"
  then have n: "firstIndex (\<lambda>r. ruleId r = i \<and> ruleState r \<noteq> StateDeleted) rs = None"
    by (auto simp: firstIndex_None)
  from a obtain k where k: "firstIndex (\<lambda>r. ruleId r = i) rs = Some k"
    using firstIndex_None [of "\<lambda>r. ruleId r = i" rs]
    by (cases "firstIndex (\<lambda>r. ruleId r = i) rs") auto
  then have b: "k < length rs" "ruleId (rs ! k) = i" "\<forall>j < k. ruleId (rs ! j) \<noteq> i"
    by (simp_all add: firstIndex_Some)
  from b(1) have "rs ! k \<in> set rs" by simp
  with a b(2) have "ruleState (rs ! k) = StateDeleted" by blast
  with n k b show "\<exists>k. getRuleForId rs i = Some k \<and> k < length rs
          \<and> ruleId (rs ! k) = i \<and> ruleState (rs ! k) = StateDeleted
          \<and> (\<forall>j < k. ruleId (rs ! j) \<noteq> i)"
    by (simp add: getRuleForId_def)
next
  show "getRuleForId rs i = None \<longleftrightarrow> (\<forall>r \<in> set rs. ruleId r \<noteq> i)"
  proof (cases "firstIndex (\<lambda>r. ruleId r = i \<and> ruleState r \<noteq> StateDeleted) rs")
    case None
    then have "getRuleForId rs i = firstIndex (\<lambda>r. ruleId r = i) rs"
      by (simp add: getRuleForId_def)
    then show ?thesis by (simp add: firstIndex_None)
  next
    case (Some k)
    then have "k < length rs \<and> ruleId (rs ! k) = i" by (simp add: firstIndex_Some)
    then have "\<exists>r \<in> set rs. ruleId r = i" using nth_mem by blast
    with Some show ?thesis by (auto simp: getRuleForId_def)
  qed
qed

theorem getRuleForId_contract_witness:
  "getRuleForId [defaultRule\<lparr>ruleId := ''1'', ruleState := StateDeleted\<rparr>,
                 defaultRule\<lparr>ruleId := ''1''\<rparr>] ''1'' = Some 1
   \<and> getRuleForId [defaultRule\<lparr>ruleId := ''1'', ruleState := StateDeleted\<rparr>] ''1'' = Some 0
   \<and> getRuleForId [defaultRule\<lparr>ruleId := ''1''\<rparr>] ''2'' = None"
proof -
  let ?del = "defaultRule\<lparr>ruleId := ''1'', ruleState := StateDeleted\<rparr>"
  let ?nor = "defaultRule\<lparr>ruleId := ''1''\<rparr>"
  have n: "ruleState ?nor = StateNormal" "ruleId ?nor = ''1''"
    and d: "ruleState ?del = StateDeleted" "ruleId ?del = ''1''"
    by (simp_all add: defaultRule_def)
  have "\<exists>r \<in> set [?del, ?nor]. ruleId r = ''1'' \<and> ruleState r \<noteq> StateDeleted"
    using n by simp
  with getRuleForId_contract [of "[?del, ?nor]" "''1''"] obtain k where
    k: "getRuleForId [?del, ?nor] ''1'' = Some k" "k < length [?del, ?nor]"
      "ruleState ([?del, ?nor] ! k) \<noteq> StateDeleted"
    by blast
  have "k = 1"
  proof (cases k)
    case 0
    with k(3) d show ?thesis by simp
  next
    case (Suc m)
    with k(2) show ?thesis by simp
  qed
  with k(1) have a: "getRuleForId [?del, ?nor] ''1'' = Some 1" by simp
  have "(\<forall>r \<in> set [?del]. ruleId r = ''1'' \<longrightarrow> ruleState r = StateDeleted)
      \<and> (\<exists>r \<in> set [?del]. ruleId r = ''1'')"
    using d by simp
  with getRuleForId_contract [of "[?del]" "''1''"] obtain j where
    "getRuleForId [?del] ''1'' = Some j" "j < length [?del]"
    by blast
  then have b: "getRuleForId [?del] ''1'' = Some 0" by simp
  have "\<forall>r \<in> set [?nor]. ruleId r \<noteq> ''2''" using n by simp
  with getRuleForId_contract [of "[?nor]" "''2''"] have c: "getRuleForId [?nor] ''2'' = None"
    by blast
  from a b c show ?thesis by simp
qed

section \<open>Creating a rule\<close>

lemma idPass_False: "snd (idPass rs c False) = False"
  by (induction rs arbitrary: c) auto

lemma newRuleId_fresh: "newRuleId rs cur \<notin> ruleId ` set rs"
proof (induction rs cur rule: newRuleId.induct)
  case (1 rs cur)
  obtain cur' ok where p: "idPass rs cur True = (cur', ok)" by fastforce
  show ?case
  proof (cases ok)
    case True
    with p idPass_unchanged [of rs cur cur'] have "cur' = cur" "cur \<notin> ruleId ` set rs" by auto
    moreover from p True have "newRuleId rs cur = cur'" by (simp add: newRuleId.simps [of rs cur])
    ultimately show ?thesis by simp
  next
    case False
    with p have "newRuleId rs cur = newRuleId rs cur'" by (simp add: newRuleId.simps [of rs cur])
    moreover from 1 [of cur' ok] p False have "newRuleId rs cur' \<notin> ruleId ` set rs"
      by simp
    ultimately show ?thesis by simp
  qed
qed

lemma createRule_built:
  assumes "createRule env d apikey (Some var) = (d', rsp)"
    and "httpStatus rsp = HttpStatusOk"
    and "new = (envNewRule env)
           \<lparr>triggerPeriodic :=
              (if mapContains (toMap var) ''periodic''
               then (case variantToInt (mapGet (toMap var) ''periodic'') of
                       Some periodic \<Rightarrow> periodic
                     | None \<Rightarrow> triggerPeriodic (envNewRule env))
               else triggerPeriodic (envNewRule env)),
            ruleId := newRuleId (rules d) ''1'',
            ruleName := toString (mapGet (toMap var) ''name''),
            ruleOwner := apikey,
            creationtime := envCurrentDateTimeUtc env,
            ruleStatus :=
              (if mapContains (toMap var) ''status''
               then toString (mapGet (toMap var) ''status'')
               else ruleStatus (envNewRule env)),
            actions := map (newAction env) (toList (mapGet (toMap var) ''actions'')),
            conditions := map newCondition (toList (mapGet (toMap var) ''conditions'')),
            ruleEtag := envEtag env\<rparr>"
  shows "d' = d\<lparr>rules := storeRule new (rules d), gwConfigEtag := envEtag env\<rparr>
      \<and> rsp = \<lparr>httpStatus = HttpStatusOk, rspList = [RspSuccess ''id'' (VString (ruleId new))]\<rparr>"
  using assms
  by (auto simp: createRule_def Let_def badRequest_def split: if_splits sum.splits option.splits)

lemma filter_update_same:
  "k < length xs \<Longrightarrow> P (xs ! k) \<Longrightarrow> P y \<Longrightarrow> length (filter P (xs[k := y])) = length (filter P xs)"
proof (induction xs arbitrary: k)
  case Nil
  then show ?case by simp
next
  case (Cons x xs)
  then show ?case by (cases k) auto
qed

text \<open>
  C1 (as amended).  When a POST passes validation and the store holds a rule whose
  actions and conditions equal those of the request, the first such rule is
  overwritten in place by the new rule (\<open>*ri = rule\<close>): after the call its slot holds
  the rule \<open>new\<close> that the handler has built from the request, that is the default
  rule with the submitted period (when given, as a 32-bit \<open>int\<close>), the newly
  allocated id, the submitted name, the API key as owner, the current time as
  creation time, the submitted status (when given), the submitted actions and
  conditions and a fresh ETag; no field of the rule stored there before remains.
  Every other slot and the length of the store are unchanged, the number of rules with
  these actions and conditions is unchanged, and the response carries the id of the
  new rule, which is an id that no rule of the store had before the call (so it is not
  the id of the rule that was replaced).
\<close>

theorem createRule_replaces_duplicate:
  assumes post: "createRule env d apikey (Some var) = (d', rsp)"
    and ok: "httpStatus rsp = HttpStatusOk"
    and acts: "acts = map (newAction env) (toList (mapGet (toMap var) ''actions''))"
    and conds: "conds = map newCondition (toList (mapGet (toMap var) ''conditions''))"
    and new: "new = (envNewRule env)
           \<lparr>triggerPeriodic :=
              (if mapContains (toMap var) ''periodic''
               then (case variantToInt (mapGet (toMap var) ''periodic'') of
                       Some periodic \<Rightarrow> periodic
                     | None \<Rightarrow> triggerPeriodic (envNewRule env))
               else triggerPeriodic (envNewRule env)),
            ruleId := newRuleId (rules d) ''1'',
            ruleName := toString (mapGet (toMap var) ''name''),
            ruleOwner := apikey,
            creationtime := envCurrentDateTimeUtc env,
            ruleStatus :=
              (if mapContains (toMap var) ''status''
               then toString (mapGet (toMap var) ''status'')
               else ruleStatus (envNewRule env)),
            actions := acts,
            conditions := conds,
            ruleEtag := envEtag env\<rparr>"
    and dup: "\<exists>r \<in> set (rules d). actions r = acts \<and> conditions r = conds"
  shows "\<exists>k. k < length (rules d)
      \<and> actions (rules d ! k) = acts \<and> conditions (rules d ! k) = conds
      \<and> (\<forall>j < k. \<not> (actions (rules d ! j) = acts \<and> conditions (rules d ! j) = conds))
      \<and> rules d' = (rules d)[k := rules d' ! k]
      \<and> rules d' ! k = new
      \<and> actions (rules d' ! k) = acts \<and> conditions (rules d' ! k) = conds
      \<and> rspList rsp = [RspSuccess ''id'' (VString (ruleId (rules d' ! k)))]
      \<and> ruleId (rules d' ! k) \<notin> ruleId ` set (rules d)
      \<and> length (filter (\<lambda>r. actions r = acts \<and> conditions r = conds) (rules d'))
          = length (filter (\<lambda>r. actions r = acts \<and> conditions r = conds) (rules d))"
proof -
  from createRule_built [OF post ok new [unfolded acts conds]]
  have d': "d' = d\<lparr>rules := storeRule new (rules d), gwConfigEtag := envEtag env\<rparr>"
    and rsp: "rsp = \<lparr>httpStatus = HttpStatusOk, rspList = [RspSuccess ''id'' (VString (ruleId new))]\<rparr>"
    by simp_all
  have r: "ruleId new = newRuleId (rules d) ''1''" "actions new = acts" "conditions new = conds"
    by (simp_all add: new)
  have P: "sameActionsConditions new = (\<lambda>r. actions r = acts \<and> conditions r = conds)"
    using r by (auto simp: sameActionsConditions_def fun_eq_iff)
  from dup obtain k where k: "firstIndex (\<lambda>r. actions r = acts \<and> conditions r = conds) (rules d) = Some k"
    using firstIndex_None [of "\<lambda>r. actions r = acts \<and> conditions r = conds" "rules d"]
    by (cases "firstIndex (\<lambda>r. actions r = acts \<and> conditions r = conds) (rules d)") auto
  then have kp: "k < length (rules d)" "actions (rules d ! k) = acts" "conditions (rules d ! k) = conds"
    "\<forall>j < k. \<not> (actions (rules d ! j) = acts \<and> conditions (rules d ! j) = conds)"
    by (simp_all add: firstIndex_Some)
  have st: "rules d' = (rules d)[k := new]" using d' k P by (simp add: storeRule_def)
  with kp(1) have nk: "rules d' ! k = new" by simp
  have cnt: "length (filter (\<lambda>r. actions r = acts \<and> conditions r = conds) ((rules d)[k := new]))
      = length (filter (\<lambda>r. actions r = acts \<and> conditions r = conds) (rules d))"
    using kp r by (intro filter_update_same) auto
  have fresh: "ruleId new \<notin> ruleId ` set (rules d)" using r(1) newRuleId_fresh by simp
  show ?thesis
    apply (rule exI [of _ k])
    using kp st nk r rsp cnt fresh by simp
qed

theorem createRule_replaces_duplicate_witness:
  "\<exists>k. k < length (rules store1)
      \<and> actions (rules store1 ! k) = map (newAction (exampleEnv ''e2'')) (toList sceneActions)
      \<and> conditions (rules store1 ! k) = map newCondition (toList sceneConditions)
      \<and> rules (fst (createRule (exampleEnv ''e2'') store1 ''key2'' (Some periodicRuleBody)))
          = (rules store1)[k := rules (fst (createRule (exampleEnv ''e2'') store1 ''key2'' (Some periodicRuleBody))) ! k]
      \<and> rules (fst (createRule (exampleEnv ''e2'') store1 ''key2'' (Some periodicRuleBody))) ! k
          = defaultRule
              \<lparr>triggerPeriodic := 0, ruleId := ''2'', ruleName := ''again'', ruleOwner := ''key2'',
               creationtime := ''2016-01-01T00:00:00'', ruleStatus := ''disabled'',
               actions := map (newAction (exampleEnv ''e2'')) (toList sceneActions),
               conditions := map newCondition (toList sceneConditions),
               ruleEtag := ''e2''\<rparr>
      \<and> rspList (snd (createRule (exampleEnv ''e2'') store1 ''key2'' (Some periodicRuleBody)))
          = [RspSuccess ''id'' (VString (ruleId (rules (fst (createRule (exampleEnv ''e2'') store1 ''key2'' (Some periodicRuleBody))) ! k)))]
      \<and> ruleId (rules (fst (createRule (exampleEnv ''e2'') store1 ''key2'' (Some periodicRuleBody))) ! k)
          \<notin> ruleId ` set (rules store1)"
proof -
  let ?e = "exampleEnv ''e2''"
  let ?r = "createRule ?e store1 ''key2'' (Some periodicRuleBody)"
  let ?acts = "map (newAction ?e) (toList sceneActions)"
  let ?conds = "map newCondition (toList sceneConditions)"
  let ?new = "defaultRule
              \<lparr>triggerPeriodic := 0, ruleId := ''2'', ruleName := ''again'', ruleOwner := ''key2'',
               creationtime := ''2016-01-01T00:00:00'', ruleStatus := ''disabled'',
               actions := ?acts, conditions := ?conds, ruleEtag := ''e2''\<rparr>"
  have 1: "?r = (fst ?r, snd ?r)" by simp
  have 2: "httpStatus (snd ?r) = HttpStatusOk" by code_simp
  have 3: "?acts = map (newAction ?e) (toList (mapGet (toMap periodicRuleBody) ''actions''))"
    by code_simp
  have 4: "?conds = map newCondition (toList (mapGet (toMap periodicRuleBody) ''conditions''))"
    by code_simp
  have 5: "?new = (envNewRule ?e)
           \<lparr>triggerPeriodic :=
              (if mapContains (toMap periodicRuleBody) ''periodic''
               then (case variantToInt (mapGet (toMap periodicRuleBody) ''periodic'') of
                       Some periodic \<Rightarrow> periodic
                     | None \<Rightarrow> triggerPeriodic (envNewRule ?e))
               else triggerPeriodic (envNewRule ?e)),
            ruleId := newRuleId (rules store1) ''1'',
            ruleName := toString (mapGet (toMap periodicRuleBody) ''name''),
            ruleOwner := ''key2'',
            creationtime := envCurrentDateTimeUtc ?e,
            ruleStatus :=
              (if mapContains (toMap periodicRuleBody) ''status''
               then toString (mapGet (toMap periodicRuleBody) ''status'')
               else ruleStatus (envNewRule ?e)),
            actions := ?acts,
            conditions := ?conds,
            ruleEtag := envEtag ?e\<rparr>"
    by code_simp
  have 6: "\<exists>r \<in> set (rules store1). actions r = ?acts \<and> conditions r = ?conds"
    by code_simp
  from createRule_replaces_duplicate [OF 1 2 3 4 5 6] show ?thesis by blast
qed

text \<open>
  The claim as stated fails.  After \<open>POST R; POST R\<close> the second response carries
  the id 2, not the id 1 of the rule it replaces; and a store in which two rules have
  the same conditions and actions (reached by a PUT) still holds two of them after the
  POST.
\<close>

theorem createRule_same_id_counterexample:
  "map ruleId (rules store1) = [''1'']
   \<and> rspList (snd (createRule (exampleEnv ''e2'') store1 ''key'' (Some sceneRuleBody)))
       = [RspSuccess ''id'' (VString ''2'')]
   \<and> map ruleId (rules (fst (createRule (exampleEnv ''e2'') store1 ''key'' (Some sceneRuleBody)))) = [''2'']
   \<and> length (filter (sameActionsConditions (rules store1 ! 0)) (rules store3)) = 2
   \<and> length (filter (sameActionsConditions (rules store1 ! 0))
        (rules (fst (createRule (exampleEnv ''e4'') store3 ''key'' (Some sceneRuleBody))))) = 2"
  by code_simp


section \<open>Condition validation\<close>

text \<open>
  C8.  With a DaylightSensor of id 1 present, the condition
  \<open>{address: /sensors/1/config/long, operator: dx}\<close> (no value) is rejected with
  \<open>ERR_INVALID_VALUE\<close> on \<open>/rules/operator\<close>: the operator chain of
  \<open>checkConditions\<close> tests \<open>/state/long\<close> and \<open>/state/lat\<close>, while the address
  list holds \<open>/config/long\<close> and \<open>/config/lat\<close>, so no operator is valid there.
\<close>

theorem checkConditions_config_long_dx_rejected:
  "checkConditions [daylightSensor1]
     [VMap [(''address'', VString ''/sensors/1/config/long''), (''operator'', VString ''dx'')]]
   = Inl (RspError ERR_INVALID_VALUE ''/rules/operator'')
   \<and> checkConditions [daylightSensor1]
     [VMap [(''address'', VString ''/sensors/1/config/lat''), (''operator'', VString ''dx'')]]
   = Inl (RspError ERR_INVALID_VALUE ''/rules/operator'')
   \<and> checkConditions [daylightSensor1]
     [VMap [(''address'', VString ''/sensors/1/state/lastupdated''), (''operator'', VString ''dx'')]]
   = Inr ()"
  by code_simp

section \<open>Updating a rule\<close>

lemma updateRuleFinish_status:
  "\<not> mapContains m ''status'' \<Longrightarrow> updateRuleFinish env m r c items = (r', c', rsp)
     \<Longrightarrow> ruleStatus r' = ''enabled''"
  by (auto simp: updateRuleFinish_def Let_def split: if_splits)

lemma updateRuleConditions_status:
  "\<not> mapContains m ''status'' \<Longrightarrow> updateRuleConditions env ss i m r c items = (r', c', rsp)
     \<Longrightarrow> httpStatus rsp = HttpStatusOk \<Longrightarrow> ruleStatus r' = ''enabled''"
  by (auto simp: updateRuleConditions_def Let_def badRequest_def
      split: if_splits sum.splits dest: updateRuleFinish_status)

lemma updateRuleAt_status:
  assumes ns: "\<not> mapContains m ''status''"
    and at: "updateRuleAt env ss i m r = (r', c', rsp)"
    and ok: "httpStatus rsp = HttpStatusOk"
  shows "ruleStatus r' = ''enabled''"
proof (cases "mapContains m ''actions''")
  case True
  show ?thesis
  proof (cases "checkActions env (toList (mapGet m ''actions''))")
    case (Inl e)
    with at True have "httpStatus rsp = HttpStatusBadRequest"
      unfolding updateRuleAt_def Let_def by (auto simp: badRequest_def)
    with ok show ?thesis by simp
  next
    case (Inr u)
    with at True obtain R C I where "updateRuleConditions env ss i m R C I = (r', c', rsp)"
      unfolding updateRuleAt_def Let_def by simp
    from updateRuleConditions_status [OF ns this ok] show ?thesis .
  qed
next
  case False
  with at obtain R C I where "updateRuleConditions env ss i m R C I = (r', c', rsp)"
    unfolding updateRuleAt_def Let_def by simp
  from updateRuleConditions_status [OF ns this ok] show ?thesis .
qed

lemma updateRule_found:
  assumes "updateRule env d i (Some var) = (d', rsp)"
    and "httpStatus rsp = HttpStatusOk"
    and "firstIndex (\<lambda>r. ruleState r = StateNormal \<and> ruleId r = i) (rules d) = Some k"
  shows "\<exists>r' changed. updateRuleAt env (sensors d) i (toMap var) (rules d ! k) = (r', changed, rsp)
      \<and> rules d' = (rules d)[k := r']"
  using assms
  by (auto simp: updateRule_def Let_def badRequest_def split: option.splits if_splits prod.splits)

text \<open>
  C10.  A PUT on a rule of state Normal that passes validation (the response status
  is OK) and whose body has no key \<open>status\<close> leaves the rule with status
  \<open>enabled\<close>, whatever its status was before and whichever other fields the body
  holds.  The rule addressed is the first rule in state Normal with the id.
\<close>

theorem updateRule_without_status_enables:
  assumes put: "updateRule env d i (Some var) = (d', rsp)"
    and ok: "httpStatus rsp = HttpStatusOk"
    and nostatus: "\<not> mapContains (toMap var) ''status''"
    and k: "k < length (rules d)"
    and normal: "ruleState (rules d ! k) = StateNormal" "ruleId (rules d ! k) = i"
    and first: "\<forall>j < k. \<not> (ruleState (rules d ! j) = StateNormal \<and> ruleId (rules d ! j) = i)"
  shows "ruleStatus (rules d' ! k) = ''enabled''"
proof -
  have "firstIndex (\<lambda>r. ruleState r = StateNormal \<and> ruleId r = i) (rules d) = Some k"
    using k normal first by (simp add: firstIndex_Some)
  from updateRule_found [OF put ok this] obtain r' changed where
    at: "updateRuleAt env (sensors d) i (toMap var) (rules d ! k) = (r', changed, rsp)"
    and d': "rules d' = (rules d)[k := r']" by blast
  from updateRuleAt_status [OF nostatus at ok] d' k show ?thesis by simp
qed


theorem updateRule_without_status_enables_witness:
  "ruleStatus (rules storeDisabled ! 0) = ''disabled''
   \<and> ruleStatus (rules (fst (updateRule (exampleEnv ''e3'') storeDisabled ''1'' (Some renameBody))) ! 0)
       = ''enabled''"
proof -
  let ?u = "updateRule (exampleEnv ''e3'') storeDisabled ''1'' (Some renameBody)"
  have 1: "?u = (fst ?u, snd ?u)" by simp
  have 2: "httpStatus (snd ?u) = HttpStatusOk" by code_simp
  have 3: "\<not> mapContains (toMap renameBody) ''status''" by code_simp
  have 4: "0 < length (rules storeDisabled)" by code_simp
  have 5: "ruleState (rules storeDisabled ! 0) = StateNormal" by code_simp
  have 6: "ruleId (rules storeDisabled ! 0) = ''1''" by code_simp
  have 7: "\<forall>j < (0::nat). \<not> (ruleState (rules storeDisabled ! j) = StateNormal
             \<and> ruleId (rules storeDisabled ! j) = ''1'')" by simp
  have 8: "ruleStatus (rules storeDisabled ! 0) = ''disabled''" by code_simp
  from updateRule_without_status_enables [OF 1 2 3 4 5 6 7] 8 show ?thesis by simp
qed

lemma updateRuleAt_unchanged:
  assumes noact: "\<not> mapContains m ''actions''" and nocond: "\<not> mapContains m ''conditions''"
    and name: "mapContains m ''name'' \<longrightarrow> toString (mapGet m ''name'') = ruleName r"
    and status: "mapContains m ''status'' \<longrightarrow> toString (mapGet m ''status'') = ruleStatus r"
    and periodic: "mapContains m ''periodic'' \<longrightarrow>
                     variantToInt (mapGet m ''periodic'') = Some (triggerPeriodic r)"
  shows "\<exists>r' rsp. updateRuleAt env ss i m r = (r', False, rsp) \<and> ruleEtag r' = ruleEtag r"
proof -
  have N: "(updateRuleName env m \<noteq> [] \<and> ruleName r \<noteq> updateRuleName env m) = False"
    using name by (auto simp: updateRuleName_def Let_def split: if_splits)
  have S: "(mapContains m ''status'' \<and> ruleStatus r \<noteq> toString (mapGet m ''status'')) = False"
    using status by auto
  have P: "(mapContains m ''periodic'' \<and> triggerPeriodic r \<noteq>
             (case variantToInt (mapGet m ''periodic'') of Some p \<Rightarrow> p | None \<Rightarrow> 0)) = False"
    using periodic by auto
  have "updateRuleAt env ss i m r =
      updateRuleFinish env m r False
        ((if updateRuleName env m \<noteq> []
          then [RspSuccess (''/rules/'' @ i @ ''/name'') (VString (updateRuleName env m))] else [])
         @ (if mapContains m ''status''
            then [RspSuccess (''/rules/'' @ i @ ''/status'') (VString (toString (mapGet m ''status'')))]
            else []))"
    unfolding updateRuleAt_def updateRuleConditions_def Let_def
    by (simp only: noact nocond N S P simp_thms if_False if_True)
  then show ?thesis
    by (simp add: updateRuleFinish_def Let_def)
qed

lemma updateRuleFinish_etag:
  "updateRuleFinish env m r c items = (r', c', rsp)
     \<Longrightarrow> c' = c \<and> httpStatus rsp = HttpStatusOk
         \<and> ruleEtag r' = (if c then envEtag env else ruleEtag r)"
  by (auto simp: updateRuleFinish_def Let_def split: if_splits)

lemma updateRuleConditions_etag:
  assumes "updateRuleConditions env ss i m r c items = (r', c', rsp)"
  shows "ruleEtag r' = (if c' then envEtag env else ruleEtag r)
      \<and> (httpStatus rsp \<noteq> HttpStatusOk \<longrightarrow> \<not> c')
      \<and> (httpStatus rsp = HttpStatusOk \<and> (c \<or> mapContains m ''conditions'') \<longrightarrow> c')"
  using assms
  by (auto simp: updateRuleConditions_def Let_def badRequest_def
      split: if_splits sum.splits dest!: updateRuleFinish_etag)

lemma updateRuleAt_etag:
  assumes at: "updateRuleAt env ss i m r = (r', c', rsp)"
  shows "ruleEtag r' = (if c' then envEtag env else ruleEtag r)
      \<and> (httpStatus rsp \<noteq> HttpStatusOk \<longrightarrow> \<not> c')
      \<and> (httpStatus rsp = HttpStatusOk
           \<and> (mapContains m ''actions'' \<or> mapContains m ''conditions'') \<longrightarrow> c')"
proof (cases "mapContains m ''actions''")
  case True
  show ?thesis
  proof (cases "checkActions env (toList (mapGet m ''actions''))")
    case (Inl e)
    with at True obtain R where "r' = R" "ruleEtag R = ruleEtag r" "c' = False"
      "httpStatus rsp = HttpStatusBadRequest"
      unfolding updateRuleAt_def Let_def by (auto simp: badRequest_def)
    then show ?thesis by auto
  next
    case (Inr u)
    with at True obtain R I where "updateRuleConditions env ss i m R True I = (r', c', rsp)"
      "ruleEtag R = ruleEtag r"
      unfolding updateRuleAt_def Let_def by simp
    from updateRuleConditions_etag [OF this(1)] this(2) show ?thesis by auto
  qed
next
  case False
  with at obtain R C I where "updateRuleConditions env ss i m R C I = (r', c', rsp)"
    "ruleEtag R = ruleEtag r"
    unfolding updateRuleAt_def Let_def by simp
  from updateRuleConditions_etag [OF this(1)] this(2) False show ?thesis by auto
qed

text \<open>
  C7 (as amended).  For a PUT on a rule of state Normal (the first such rule with the
  id):
  \<^item> when the body has neither the key \<open>actions\<close> nor the key \<open>conditions\<close>, and each
    of \<open>name\<close>, \<open>status\<close> and \<open>periodic\<close>, when present, equals the rule's current
    value (the period as the 32-bit \<open>int\<close> it is read into), the ETag of every rule
    and the configuration ETag are unchanged;
  \<^item> when the body has the key \<open>actions\<close> or the key \<open>conditions\<close> and the PUT passes
    validation (the response status is OK), the rule and the configuration get the
    fresh ETag and every other rule keeps its ETag, whether or not the submitted
    actions and conditions equal the stored ones;
  \<^item> when the PUT is rejected (the response status is not OK), the ETag of every rule
    and the configuration ETag are unchanged.
\<close>

theorem updateRule_equal_fields_keep_etag:
  assumes put: "updateRule env d i (Some var) = (d', rsp)"
    and k: "k < length (rules d)"
    and normal: "ruleState (rules d ! k) = StateNormal" "ruleId (rules d ! k) = i"
    and first: "\<forall>j < k. \<not> (ruleState (rules d ! j) = StateNormal \<and> ruleId (rules d ! j) = i)"
  shows "(\<not> mapContains (toMap var) ''actions'' \<and> \<not> mapContains (toMap var) ''conditions''
          \<and> (mapContains (toMap var) ''name'' \<longrightarrow>
                 toString (mapGet (toMap var) ''name'') = ruleName (rules d ! k))
          \<and> (mapContains (toMap var) ''status'' \<longrightarrow>
                 toString (mapGet (toMap var) ''status'') = ruleStatus (rules d ! k))
          \<and> (mapContains (toMap var) ''periodic'' \<longrightarrow>
                 variantToInt (mapGet (toMap var) ''periodic'') = Some (triggerPeriodic (rules d ! k)))
         \<longrightarrow> map ruleEtag (rules d') = map ruleEtag (rules d) \<and> gwConfigEtag d' = gwConfigEtag d)
      \<and> ((mapContains (toMap var) ''actions'' \<or> mapContains (toMap var) ''conditions'')
          \<and> httpStatus rsp = HttpStatusOk
         \<longrightarrow> ruleEtag (rules d' ! k) = envEtag env \<and> gwConfigEtag d' = envEtag env
             \<and> (\<forall>j < length (rules d). j \<noteq> k \<longrightarrow> ruleEtag (rules d' ! j) = ruleEtag (rules d ! j)))
      \<and> (httpStatus rsp \<noteq> HttpStatusOk
         \<longrightarrow> map ruleEtag (rules d') = map ruleEtag (rules d) \<and> gwConfigEtag d' = gwConfigEtag d)"
proof (intro conjI impI)
  have f: "firstIndex (\<lambda>r. ruleState r = StateNormal \<and> ruleId r = i) (rules d) = Some k"
    using k normal first by (simp add: firstIndex_Some)
  {
    assume a: "\<not> mapContains (toMap var) ''actions'' \<and> \<not> mapContains (toMap var) ''conditions''
          \<and> (mapContains (toMap var) ''name'' \<longrightarrow>
                 toString (mapGet (toMap var) ''name'') = ruleName (rules d ! k))
          \<and> (mapContains (toMap var) ''status'' \<longrightarrow>
                 toString (mapGet (toMap var) ''status'') = ruleStatus (rules d ! k))
          \<and> (mapContains (toMap var) ''periodic'' \<longrightarrow>
                 variantToInt (mapGet (toMap var) ''periodic'') = Some (triggerPeriodic (rules d ! k)))"
    from a updateRuleAt_unchanged [of "toMap var" "rules d ! k" env "sensors d" i] obtain r' rsp' where
      at: "updateRuleAt env (sensors d) i (toMap var) (rules d ! k) = (r', False, rsp')"
      and e: "ruleEtag r' = ruleEtag (rules d ! k)" by blast
    have "map ruleEtag ((rules d)[k := r']) = map ruleEtag (rules d)"
      using e k by (simp add: map_update list_update_same_conv)
    with f at put have "map ruleEtag (rules d') = map ruleEtag (rules d) \<and> gwConfigEtag d' = gwConfigEtag d"
      by (auto simp: updateRule_def Let_def split: option.splits if_splits)
    then show "map ruleEtag (rules d') = map ruleEtag (rules d)" "gwConfigEtag d' = gwConfigEtag d"
      by simp_all
  }
  {
    assume a: "(mapContains (toMap var) ''actions'' \<or> mapContains (toMap var) ''conditions'')
          \<and> httpStatus rsp = HttpStatusOk"
    then have ok: "httpStatus rsp = HttpStatusOk" by simp
    from updateRule_found [OF put ok f] obtain r' changed where
      at: "updateRuleAt env (sensors d) i (toMap var) (rules d ! k) = (r', changed, rsp)"
      and d': "rules d' = (rules d)[k := r']" by blast
    from updateRuleAt_etag [OF at] a have c: "changed" "ruleEtag r' = envEtag env" by auto
    from d' k c show "ruleEtag (rules d' ! k) = envEtag env" by simp
    from put f at c ok show "gwConfigEtag d' = envEtag env"
      by (auto simp: updateRule_def Let_def badRequest_def split: option.splits if_splits)
    from d' show "\<forall>j < length (rules d). j \<noteq> k \<longrightarrow> ruleEtag (rules d' ! j) = ruleEtag (rules d ! j)"
      by simp
  }
  {
    assume bad: "httpStatus rsp \<noteq> HttpStatusOk"
    obtain r' changed rsp' where
      at: "updateRuleAt env (sensors d) i (toMap var) (rules d ! k) = (r', changed, rsp')"
      by (cases "updateRuleAt env (sensors d) i (toMap var) (rules d ! k)") auto
    have same: "rsp' = rsp \<longrightarrow> map ruleEtag ((rules d)[k := r']) = map ruleEtag (rules d) \<and> \<not> changed"
      using updateRuleAt_etag [OF at] bad k by (auto simp: map_update list_update_same_conv)
    with f at put have "map ruleEtag (rules d') = map ruleEtag (rules d) \<and> gwConfigEtag d' = gwConfigEtag d"
      by (auto simp: updateRule_def Let_def split: option.splits if_splits)
    then show "map ruleEtag (rules d') = map ruleEtag (rules d)" "gwConfigEtag d' = gwConfigEtag d"
      by simp_all
  }
qed

theorem updateRule_equal_fields_keep_etag_witness:
  "map ruleEtag (rules (fst (updateRule (exampleEnv ''e2'') store1 ''1'' (Some sameFieldsBody))))
     = map ruleEtag (rules store1)
   \<and> gwConfigEtag (fst (updateRule (exampleEnv ''e2'') store1 ''1'' (Some sameFieldsBody)))
     = gwConfigEtag store1
   \<and> map ruleEtag (rules (fst (updateRule (exampleEnv ''e2'') store1 ''1'' (Some wrappedPeriodBody))))
     = map ruleEtag (rules store1)
   \<and> ruleEtag (rules (fst (updateRule (exampleEnv ''e2'') store1 ''1'' (Some resubmitBody))) ! 0)
     = envEtag (exampleEnv ''e2'')
   \<and> gwConfigEtag (fst (updateRule (exampleEnv ''e2'') store1 ''1'' (Some resubmitBody)))
     = envEtag (exampleEnv ''e2'')
   \<and> httpStatus (snd (updateRule (exampleEnv ''e2'') store1 ''1'' (Some badActionBody)))
     = HttpStatusBadRequest
   \<and> map ruleEtag (rules (fst (updateRule (exampleEnv ''e2'') store1 ''1'' (Some badActionBody))))
     = map ruleEtag (rules store1)"
proof -
  let ?e = "exampleEnv ''e2''"
  let ?same = "updateRule ?e store1 ''1'' (Some sameFieldsBody)"
  let ?wrap = "updateRule ?e store1 ''1'' (Some wrappedPeriodBody)"
  let ?again = "updateRule ?e store1 ''1'' (Some resubmitBody)"
  let ?bad = "updateRule ?e store1 ''1'' (Some badActionBody)"
  have psame: "?same = (fst ?same, snd ?same)" by simp
  have pwrap: "?wrap = (fst ?wrap, snd ?wrap)" by simp
  have pagain: "?again = (fst ?again, snd ?again)" by simp
  have pbad: "?bad = (fst ?bad, snd ?bad)" by simp
  have k: "0 < length (rules store1)" by code_simp
  have n: "ruleState (rules store1 ! 0) = StateNormal" by code_simp
  have i: "ruleId (rules store1 ! 0) = ''1''" by code_simp
  have f: "\<forall>j < (0::nat). \<not> (ruleState (rules store1 ! j) = StateNormal
             \<and> ruleId (rules store1 ! j) = ''1'')" by simp
  have s1: "\<not> mapContains (toMap sameFieldsBody) ''actions''" by code_simp
  have s2: "\<not> mapContains (toMap sameFieldsBody) ''conditions''" by code_simp
  have s3: "toString (mapGet (toMap sameFieldsBody) ''name'') = ruleName (rules store1 ! 0)"
    by code_simp
  have s4: "toString (mapGet (toMap sameFieldsBody) ''status'') = ruleStatus (rules store1 ! 0)"
    by code_simp
  have s5: "variantToInt (mapGet (toMap sameFieldsBody) ''periodic'')
               = Some (triggerPeriodic (rules store1 ! 0))"
    by code_simp
  have w1: "\<not> mapContains (toMap wrappedPeriodBody) ''actions''" by code_simp
  have w2: "\<not> mapContains (toMap wrappedPeriodBody) ''conditions''" by code_simp
  have w3: "\<not> mapContains (toMap wrappedPeriodBody) ''name''" by code_simp
  have w4: "\<not> mapContains (toMap wrappedPeriodBody) ''status''" by code_simp
  have w5: "variantToInt (mapGet (toMap wrappedPeriodBody) ''periodic'')
               = Some (triggerPeriodic (rules store1 ! 0))"
    by code_simp
  have a1: "mapContains (toMap resubmitBody) ''actions''" by code_simp
  have a2: "httpStatus (snd ?again) = HttpStatusOk" by code_simp
  have b1: "httpStatus (snd ?bad) = HttpStatusBadRequest" by code_simp
  have same: "map ruleEtag (rules (fst ?same)) = map ruleEtag (rules store1)
      \<and> gwConfigEtag (fst ?same) = gwConfigEtag store1"
    using updateRule_equal_fields_keep_etag [OF psame k n i f]
      s1 s2 s3 s4 s5 by blast
  have wrap: "map ruleEtag (rules (fst ?wrap)) = map ruleEtag (rules store1)"
    using updateRule_equal_fields_keep_etag [OF pwrap k n i f]
      w1 w2 w3 w4 w5 by blast
  have again: "ruleEtag (rules (fst ?again) ! 0) = envEtag ?e \<and> gwConfigEtag (fst ?again) = envEtag ?e"
    using updateRule_equal_fields_keep_etag [OF pagain k n i f]
      a1 a2 by blast
  have bad: "map ruleEtag (rules (fst ?bad)) = map ruleEtag (rules store1)"
    using updateRule_equal_fields_keep_etag [OF pbad k n i f]
      b1 by simp
  from same wrap again b1 bad show ?thesis by blast
qed

text \<open>
  The claim as stated fails for a body that resubmits the current actions and
  conditions: \<open>updateRule\<close> sets \<open>changed\<close> as soon as one of these keys is
  present, so the rule keeps its actions and conditions and still gets a new ETag.
\<close>

theorem updateRule_resubmit_counterexample:
  "conditions (rules (fst (updateRule (exampleEnv ''e2'') store1 ''1'' (Some resubmitBody))) ! 0)
     = conditions (rules store1 ! 0)
   \<and> actions (rules (fst (updateRule (exampleEnv ''e2'') store1 ''1'' (Some resubmitBody))) ! 0)
     = actions (rules store1 ! 0)
   \<and> ruleEtag (rules store1 ! 0) = ''e1''
   \<and> ruleEtag (rules (fst (updateRule (exampleEnv ''e2'') store1 ''1'' (Some resubmitBody))) ! 0) = ''e2''"
  by code_simp


section \<open>The task queues\<close>

lemma addTask_running: "runningTasks (snd (addTask apsCtrl d task)) = runningTasks d"
  by (simp add: addTask_def pushTask_def split: option.splits)

lemma processTasksLoop_running:
  "runningTasks (processTasksLoop c now d passed rest) = runningTasks d
   \<or> (\<exists>i \<in> set rest. \<not> destinationBusy d i
         \<and> runningTasks (processTasksLoop c now d passed rest) = runningTasks d @ [i])"
proof (induction rest arbitrary: passed)
  case Nil
  then show ?case by simp
next
  case (Cons i rest)
  from Cons.IH [of "passed @ [i]"] show ?case
    by (auto simp: Let_def split: option.splits ApsStatus.splits)
qed

lemma processTasks_running:
  "runningTasks (processTasks apsCtrl now d) = runningTasks d
   \<or> runningTasks (processTasks apsCtrl now d) = []
   \<or> (\<exists>i \<in> set (tasks d). \<not> destinationBusy d i
         \<and> runningTasks (processTasks apsCtrl now d) = runningTasks d @ [i])"
  using processTasksLoop_running [of _ now d "[]" "tasks d"]
  by (auto simp: processTasks_def split: option.splits)

lemma destinations_append_free:
  "distinct (destinations rs) \<Longrightarrow> \<not> destinationBusy d i \<Longrightarrow> rs = runningTasks d
     \<Longrightarrow> distinct (destinations (rs @ [i]))"
  by (auto simp: destinations_def destinationBusy_def list_ex_iff)

lemma processTasks_distinct:
  assumes "distinct (destinations (runningTasks d))"
  shows "distinct (destinations (runningTasks (processTasks apsCtrl now d)))"
  using processTasks_running [of apsCtrl now d] assms
  by (auto simp: destinations_def destinationBusy_def list_ex_iff)

lemma erase_distinct:
  "distinct (destinations xs) \<Longrightarrow> distinct (destinations (take k xs @ drop (Suc k) xs))"
proof -
  assume a: "distinct (destinations xs)"
  have "destinations (take k xs @ drop (Suc k) xs)
      = take k (destinations xs) @ drop (Suc k) (destinations xs)"
    by (simp add: destinations_def take_map drop_map)
  moreover have "distinct (take k ys @ drop (Suc k) ys)" if "distinct ys" for ys :: "Address list"
    using that by (simp add: set_take_disj_set_drop_if_distinct)
  ultimately show ?thesis using a by simp
qed

lemma apsdeDataConfirm_distinct:
  assumes "distinct (destinations (runningTasks d))"
  shows "distinct (destinations (runningTasks (apsdeDataConfirm apsCtrl now d confId)))"
proof (cases "firstIndex (\<lambda>task. reqId (req task) = confId) (runningTasks d)")
  case None
  with assms show ?thesis by (simp add: apsdeDataConfirm_def)
next
  case (Some k)
  let ?d = "d\<lparr>runningTasks := take k (runningTasks d) @ drop (Suc k) (runningTasks d)\<rparr>"
  have "distinct (destinations (runningTasks ?d))" using erase_distinct [OF assms] by simp
  from processTasks_distinct [OF this] Some show ?thesis by (simp add: apsdeDataConfirm_def)
qed

text \<open>
  C3.  In every reachable state the running tasks have pairwise distinct destination
  addresses; and from any state \<open>processTasks\<close> either leaves \<open>runningTasks\<close>
  as it is, or empties it (network lost), or appends one queued task whose
  destination address is the destination of no running task.
\<close>

theorem runningTasks_distinct_destinations:
  "reachable d \<Longrightarrow>
     distinct (destinations (runningTasks d))
     \<and> (runningTasks (processTasks apsCtrl now d) = runningTasks d
        \<or> runningTasks (processTasks apsCtrl now d) = []
        \<or> (\<exists>i \<in> set (tasks d).
              dstAddress (req i) \<notin> set (destinations (runningTasks d))
              \<and> runningTasks (processTasks apsCtrl now d) = runningTasks d @ [i]))"
proof
  assume "reachable d"
  then show "distinct (destinations (runningTasks d))"
  proof (induction rule: reachable.induct)
    case (start d)
    then show ?case by (simp add: destinations_def)
  next
    case (enqueue d ctl task)
    then show ?case by (simp add: addTask_running)
  next
    case (dispatch d ctl t)
    from dispatch.IH show ?case by (rule processTasks_distinct)
  next
    case (confirm d ctl t confId)
    from confirm.IH show ?case by (rule apsdeDataConfirm_distinct)
  next
    case (refresh d)
    then show ?case by (simp add: refreshAllQueues_def destinations_def)
  next
    case (registry d d')
    then show ?case by simp
  qed
next
  from processTasks_running [of apsCtrl now d]
  show "runningTasks (processTasks apsCtrl now d) = runningTasks d
        \<or> runningTasks (processTasks apsCtrl now d) = []
        \<or> (\<exists>i \<in> set (tasks d).
              dstAddress (req i) \<notin> set (destinations (runningTasks d))
              \<and> runningTasks (processTasks apsCtrl now d) = runningTasks d @ [i])"
    by (auto simp: destinations_def destinationBusy_def list_ex_iff)
qed


theorem runningTasks_distinct_destinations_witness:
  "runningTasks (processTasks (Some exampleController) 0 (processTasks (Some exampleController) 0 twoToOne))
     = [unicastTask TaskSetOnOff 7 [1]]
   \<and> tasks (processTasks (Some exampleController) 0 (processTasks (Some exampleController) 0 twoToOne))
     = [unicastTask TaskSetLevel 7 [2]]
   \<and> distinct (destinations (runningTasks
        (processTasks (Some exampleController) 0 (processTasks (Some exampleController) 0 twoToOne))))"
proof -
  have "reachable emptyPlugin" by (rule reachable.start) (simp_all add: emptyPlugin_def)
  then have "reachable twoToOne" unfolding twoToOne_def by (intro reachable.enqueue)
  then have "reachable (processTasks (Some exampleController) 0
                (processTasks (Some exampleController) 0 twoToOne))"
    by (intro reachable.dispatch)
  from runningTasks_distinct_destinations [OF this]
  have "distinct (destinations (runningTasks
        (processTasks (Some exampleController) 0 (processTasks (Some exampleController) 0 twoToOne))))"
    by blast
  moreover have "runningTasks (processTasks (Some exampleController) 0
      (processTasks (Some exampleController) 0 twoToOne)) = [unicastTask TaskSetOnOff 7 [1]]"
    by code_simp
  moreover have "tasks (processTasks (Some exampleController) 0
      (processTasks (Some exampleController) 0 twoToOne)) = [unicastTask TaskSetLevel 7 [2]]"
    by code_simp
  ultimately show ?thesis by simp
qed

lemma pushTask_full: "MaxTasks \<le> length (tasks d) \<Longrightarrow> pushTask d task = (False, d)"
  by (simp add: pushTask_def)

text \<open>
  C4 (as amended).  When the queue holds 20 tasks, \<open>addTask\<close> leaves it with 20
  tasks.  It returns false and leaves the queue unchanged when the gateway is not in
  the network, or the task is of an always-appended type, or no queued task has the
  type, destination address, endpoints, profile, cluster, tx options and payload size
  of the task; otherwise it overwrites the first such queued task and returns true.
\<close>

theorem addTask_full_queue:
  assumes full: "length (tasks d) = 20"
  shows "length (tasks (snd (addTask apsCtrl d task))) = 20
     \<and> (\<not> isInNetwork apsCtrl \<or> alwaysAppended (taskType task)
          \<or> \<not> list_ex (sameRequest task) (tasks d)
        \<longrightarrow> addTask apsCtrl d task = (False, d))
     \<and> (isInNetwork apsCtrl \<and> \<not> alwaysAppended (taskType task)
          \<and> list_ex (sameRequest task) (tasks d)
        \<longrightarrow> (\<exists>k < 20. sameRequest task (tasks d ! k)
               \<and> (\<forall>j < k. \<not> sameRequest task (tasks d ! j))
               \<and> addTask apsCtrl d task = (True, d\<lparr>tasks := (tasks d)[k := task]\<rparr>)))"
proof (intro conjI impI)
  have p: "pushTask d task = (False, d)" using full by (simp add: pushTask_full MaxTasks_def)
  show "length (tasks (snd (addTask apsCtrl d task))) = 20"
    using full p by (simp add: addTask_def split: option.splits)
  show "addTask apsCtrl d task = (False, d)"
    if "\<not> isInNetwork apsCtrl \<or> alwaysAppended (taskType task)
          \<or> \<not> list_ex (sameRequest task) (tasks d)"
  proof -
    have "firstIndex (sameRequest task) (tasks d) = None"
      if "\<not> list_ex (sameRequest task) (tasks d)"
      using that by (simp add: firstIndex_None list_ex_iff)
    with that p show ?thesis by (auto simp: addTask_def)
  qed
  show "\<exists>k < 20. sameRequest task (tasks d ! k)
               \<and> (\<forall>j < k. \<not> sameRequest task (tasks d ! j))
               \<and> addTask apsCtrl d task = (True, d\<lparr>tasks := (tasks d)[k := task]\<rparr>)"
    if a: "isInNetwork apsCtrl \<and> \<not> alwaysAppended (taskType task)
          \<and> list_ex (sameRequest task) (tasks d)"
  proof -
    from a obtain k where k: "firstIndex (sameRequest task) (tasks d) = Some k"
      using firstIndex_None [of "sameRequest task" "tasks d"]
      by (cases "firstIndex (sameRequest task) (tasks d)") (auto simp: list_ex_iff)
    then have "k < 20" "sameRequest task (tasks d ! k)" "\<forall>j < k. \<not> sameRequest task (tasks d ! j)"
      using full by (simp_all add: firstIndex_Some)
    moreover from a k have "addTask apsCtrl d task = (True, d\<lparr>tasks := (tasks d)[k := task]\<rparr>)"
      by (simp add: addTask_def)
    ultimately show ?thesis by blast
  qed
qed

theorem addTask_full_queue_witness:
  "length (tasks fullQueue) = 20
   \<and> addTask (Some exampleController) fullQueue (unicastTask TaskSetOnOff 21 [0]) = (False, fullQueue)
   \<and> addTask (Some exampleController) fullQueue (unicastTask TaskReadAttributes 1 [0]) = (False, fullQueue)"
proof -
  have f: "length (tasks fullQueue) = 20" by code_simp
  have 1: "\<not> list_ex (sameRequest (unicastTask TaskSetOnOff 21 [0])) (tasks fullQueue)"
    by code_simp
  have 2: "alwaysAppended (taskType (unicastTask TaskReadAttributes 1 [0]))" by code_simp
  from addTask_full_queue [OF f, of "Some exampleController" "unicastTask TaskSetOnOff 21 [0]"] 1
  have "addTask (Some exampleController) fullQueue (unicastTask TaskSetOnOff 21 [0]) = (False, fullQueue)"
    by blast
  moreover
  from addTask_full_queue [OF f, of "Some exampleController" "unicastTask TaskReadAttributes 1 [0]"] 2
  have "addTask (Some exampleController) fullQueue (unicastTask TaskReadAttributes 1 [0]) = (False, fullQueue)"
    by blast
  ultimately show ?thesis using f by simp
qed

text \<open>
  The claim as stated fails: with 20 queued tasks, an on/off task to a destination
  that already has an on/off task of the same payload size in the queue is accepted
  and replaces it.
\<close>

theorem addTask_full_queue_counterexample:
  "length (tasks fullQueue) = 20
   \<and> fst (addTask (Some exampleController) fullQueue (unicastTask TaskSetOnOff 1 [1])) = True
   \<and> tasks (snd (addTask (Some exampleController) fullQueue (unicastTask TaskSetOnOff 1 [1]))) ! 0
       = unicastTask TaskSetOnOff 1 [1]
   \<and> tasks fullQueue ! 0 = unicastTask TaskSetOnOff 1 [0]
   \<and> tasks (snd (addTask (Some exampleController) fullQueue (unicastTask TaskSetOnOff 1 [1])))
       \<noteq> tasks fullQueue"
  by code_simp


section \<open>Group count and group capacity\<close>

lemma uint8_range: "0 \<le> uint (w :: 8 word) \<and> uint w \<le> 255"
  using uint_lt2p [of w] by simp

lemma count_inc: "uint (if c < 255 then c + 1 else c :: 8 word) = specGroupCount 1 (uint c)"
proof (cases "c < 255")
  case True
  then have "uint c < 255" by (simp add: word_less_def)
  then have "uint (c + 1) = uint c + 1" by (simp add: uint_word_ariths take_bit_eq_mod)
  with True \<open>uint c < 255\<close> show ?thesis
    by (simp add: specGroupCount_def clamp255_def)
next
  case False
  then have "\<not> uint c < 255" by (simp add: word_less_def)
  with uint8_range [of c] have "uint c = 255" by simp
  with False show ?thesis by (simp add: specGroupCount_def clamp255_def)
qed

lemma count_dec: "uint (if c > 0 then c - 1 else c :: 8 word) = specGroupCount (- 1) (uint c)"
proof (cases "c > 0")
  case True
  then have p: "0 < uint c" by (simp add: word_less_def)
  then have "uint (c - 1) = uint c - 1"
    using uint8_range [of c] by (simp add: uint_word_ariths take_bit_eq_mod)
  with True p uint8_range [of c] show ?thesis
    by (simp add: specGroupCount_def clamp255_def)
next
  case False
  then have "c = 0" by (simp add: word_gt_0)
  then show ?thesis by (simp add: specGroupCount_def clamp255_def)
qed

lemma uint_word_of_int8: "0 \<le> x \<Longrightarrow> x \<le> 255 \<Longrightarrow> uint (word_of_int x :: 8 word) = x"
  by (simp add: uint_word_of_int take_bit_eq_mod)

lemma addGroupResponse_count:
  "uint (groupCount (addGroupResponse n l)) = specGroupCount 1 (uint (groupCount l))"
  using count_inc [of "groupCount l"] by (simp add: addGroupResponse_def Let_def)

lemma addGroupResponse_capacity:
  assumes "0 \<le> n"
  shows "uint (groupCapacity (addGroupResponse n l))
     = (if n \<le> uint (groupCapacity l) then uint (groupCapacity l) - n else uint (groupCapacity l))"
  using assms uint8_range [of "groupCapacity l"]
  by (simp add: addGroupResponse_def Let_def uint_word_of_int8 del: of_int_diff)

lemma removeGroupResponse_count:
  "getGroupInfo l g = Some j \<Longrightarrow>
   uint (groupCount (removeGroupResponse n g l)) = specGroupCount (- 1) (uint (groupCount l))"
  using count_dec [of "groupCount l"] by (simp add: removeGroupResponse_def Let_def)

lemma removeGroupResponse_capacity:
  assumes "0 \<le> n" "getGroupInfo l g = Some j"
  shows "uint (groupCapacity (removeGroupResponse n g l))
     = (if uint (groupCapacity l) + n \<le> 255 then uint (groupCapacity l) + n
        else uint (groupCapacity l))"
  using assms uint8_range [of "groupCapacity l"]
  by (simp add: removeGroupResponse_def Let_def uint_word_of_int8 del: of_int_add)

lemma removeGroupResponse_none: "getGroupInfo l g = None \<Longrightarrow> removeGroupResponse n g l = l"
  by (simp add: removeGroupResponse_def)

lemma getNumberOfEndpoints_nonneg: "0 \<le> getNumberOfEndpoints d e"
  by (simp add: getNumberOfEndpoints_def)

lemma handle_add:
  assumes "indHasExt ind"
    and "getLightNodeForAddress d (indSrcExt ind) (indSrcEndpoint ind) = Some k"
    and "\<not> zclIsDefaultResponse f" and "zclCommandId f = 0x00"
    and "fst (readU8 (zclPayload f)) = 0"
  shows "nodes (handleGroupClusterIndication m d ind f)
     = (nodes d)[k := addGroupResponse (getNumberOfEndpoints d (indSrcExt ind)) (nodes d ! k)]"
proof -
  obtain s1 where "readU8 (zclPayload f) = (0, s1)"
    using assms(5) by (cases "readU8 (zclPayload f)") auto
  with assms show ?thesis
    by (simp add: handleGroupClusterIndication_def Let_def split: prod.splits)
qed

lemma handle_remove:
  assumes "indHasExt ind"
    and "getLightNodeForAddress d (indSrcExt ind) (indSrcEndpoint ind) = Some k"
    and "\<not> zclIsDefaultResponse f" and "zclCommandId f = 0x03"
    and "fst (readU8 (zclPayload f)) = 0"
  shows "nodes (handleGroupClusterIndication m d ind f)
     = (nodes d)[k := removeGroupResponse (getNumberOfEndpoints d (indSrcExt ind))
                        (fst (readU16 (snd (readU8 (zclPayload f))))) (nodes d ! k)]"
proof -
  obtain s1 where "readU8 (zclPayload f) = (0, s1)"
    using assms(5) by (cases "readU8 (zclPayload f)") auto
  with assms show ?thesis
    by (simp add: handleGroupClusterIndication_def Let_def split: prod.splits)
qed

text \<open>
  C5 (as amended).  On an Add group response with status 0 from a light, the group
  count of the light is \<open>count + 1\<close> clamped to \<open>[0, 255]\<close>; its group capacity
  is lowered by the endpoint count of the node when it is at least the endpoint
  count, and is otherwise left as it is.  On a Remove group response with status 0
  for a group the light has a membership entry for, the group count is
  \<open>count - 1\<close> clamped to \<open>[0, 255]\<close>; the group capacity is raised by the
  endpoint count when the sum is at most 255, and is otherwise left as it is.
  Without a membership entry for the group the lights are unchanged.
\<close>

theorem groupResponse_count_capacity:
  assumes ext: "indHasExt ind"
    and light: "getLightNodeForAddress d (indSrcExt ind) (indSrcEndpoint ind) = Some k"
    and nodef: "\<not> zclIsDefaultResponse f"
    and status: "fst (readU8 (zclPayload f)) = 0"
    and n: "n = getNumberOfEndpoints d (indSrcExt ind)"
    and cap: "cap = uint (groupCapacity (nodes d ! k))"
    and cnt: "cnt = uint (groupCount (nodes d ! k))"
    and d': "d' = handleGroupClusterIndication m d ind f"
  shows "(zclCommandId f = 0x00 \<longrightarrow>
            uint (groupCount (nodes d' ! k)) = specGroupCount 1 cnt
          \<and> uint (groupCapacity (nodes d' ! k)) = (if n \<le> cap then specGroupCapacity 1 n cap else cap))
       \<and> (zclCommandId f = 0x03
            \<and> getGroupInfo (nodes d ! k) (fst (readU16 (snd (readU8 (zclPayload f))))) \<noteq> None \<longrightarrow>
            uint (groupCount (nodes d' ! k)) = specGroupCount (- 1) cnt
          \<and> uint (groupCapacity (nodes d' ! k))
              = (if cap + n \<le> 255 then specGroupCapacity (- 1) n cap else cap))
       \<and> (zclCommandId f = 0x03
            \<and> getGroupInfo (nodes d ! k) (fst (readU16 (snd (readU8 (zclPayload f))))) = None \<longrightarrow>
            nodes d' = nodes d)"
proof -
  from light have k: "k < length (nodes d)"
    by (simp add: getLightNodeForAddress_def firstIndex_Some)
  have n0: "0 \<le> n" using n by (simp add: getNumberOfEndpoints_nonneg)
  have r: "0 \<le> cap \<and> cap \<le> 255" using cap uint8_range by simp
  show ?thesis
  proof (intro conjI impI)
    assume c: "zclCommandId f = 0x00"
    from handle_add [OF ext light nodef c status] k d' n
    have e: "nodes d' ! k = addGroupResponse n (nodes d ! k)" by simp
    show "uint (groupCount (nodes d' ! k)) = specGroupCount 1 cnt"
      using e cnt by (simp add: addGroupResponse_count)
    show "uint (groupCapacity (nodes d' ! k)) = (if n \<le> cap then specGroupCapacity 1 n cap else cap)"
      using e cap n0 r by (simp add: addGroupResponse_capacity specGroupCapacity_def clamp255_def)
  next
    assume c: "zclCommandId f = 0x03
            \<and> getGroupInfo (nodes d ! k) (fst (readU16 (snd (readU8 (zclPayload f))))) \<noteq> None"
    then obtain j where j: "getGroupInfo (nodes d ! k) (fst (readU16 (snd (readU8 (zclPayload f))))) = Some j"
      by auto
    from c handle_remove [OF ext light nodef _ status] k d' n
    have e: "nodes d' ! k = removeGroupResponse n (fst (readU16 (snd (readU8 (zclPayload f))))) (nodes d ! k)"
      by simp
    show "uint (groupCount (nodes d' ! k)) = specGroupCount (- 1) cnt"
      using e cnt j by (simp add: removeGroupResponse_count)
    show "uint (groupCapacity (nodes d' ! k))
              = (if cap + n \<le> 255 then specGroupCapacity (- 1) n cap else cap)"
      using e cap n0 r j
      by (simp add: removeGroupResponse_capacity [OF n0 j] specGroupCapacity_def clamp255_def)
  next
    assume c: "zclCommandId f = 0x03
            \<and> getGroupInfo (nodes d ! k) (fst (readU16 (snd (readU8 (zclPayload f))))) = None"
    with handle_remove [OF ext light nodef _ status] d' n
    show "nodes d' = nodes d" by (simp add: removeGroupResponse_none)
  qed
qed


theorem groupResponse_count_capacity_witness:
  "uint (groupCount (nodes (handleGroupClusterIndication noMembership (twoEndpoints 24 3)
           fromEndpoint1 (groupResponse 0)) ! 0)) = 4
   \<and> uint (groupCapacity (nodes (handleGroupClusterIndication noMembership (twoEndpoints 24 3)
           fromEndpoint1 (groupResponse 0)) ! 0)) = 22
   \<and> uint (groupCount (nodes (handleGroupClusterIndication noMembership (twoEndpoints 24 3)
           fromEndpoint1 (groupResponse 3)) ! 0)) = 2
   \<and> uint (groupCapacity (nodes (handleGroupClusterIndication noMembership (twoEndpoints 24 3)
           fromEndpoint1 (groupResponse 3)) ! 0)) = 26"
proof -
  let ?d = "twoEndpoints 24 3"
  have 1: "indHasExt fromEndpoint1" by code_simp
  have 2: "getLightNodeForAddress ?d (indSrcExt fromEndpoint1) (indSrcEndpoint fromEndpoint1) = Some 0"
    by code_simp
  have 3: "\<not> zclIsDefaultResponse (groupResponse c)" for c by (simp add: groupResponse_def)
  have 4: "fst (readU8 (zclPayload (groupResponse c))) = 0" for c by (simp add: groupResponse_def)
  have 5: "(2::int) = getNumberOfEndpoints ?d (indSrcExt fromEndpoint1)" by code_simp
  have 6: "(24::int) = uint (groupCapacity (nodes ?d ! 0))" by code_simp
  have 7: "(3::int) = uint (groupCount (nodes ?d ! 0))" by code_simp
  have c0: "zclCommandId (groupResponse 0) = 0x00" by (simp add: groupResponse_def)
  have c3: "zclCommandId (groupResponse 3) = 0x03
     \<and> getGroupInfo (nodes ?d ! 0) (fst (readU16 (snd (readU8 (zclPayload (groupResponse 3)))))) \<noteq> None"
    by code_simp
  from groupResponse_count_capacity [OF 1 2 3 4 5 6 7 refl, of 0 noMembership] c0
  have a: "uint (groupCount (nodes (handleGroupClusterIndication noMembership ?d
           fromEndpoint1 (groupResponse 0)) ! 0)) = specGroupCount 1 3
    \<and> uint (groupCapacity (nodes (handleGroupClusterIndication noMembership ?d
           fromEndpoint1 (groupResponse 0)) ! 0)) = specGroupCapacity 1 2 24"
    by simp
  from groupResponse_count_capacity [OF 1 2 3 4 5 6 7 refl, of 3 noMembership] c3
  have b: "uint (groupCount (nodes (handleGroupClusterIndication noMembership ?d
           fromEndpoint1 (groupResponse 3)) ! 0)) = specGroupCount (- 1) 3
    \<and> uint (groupCapacity (nodes (handleGroupClusterIndication noMembership ?d
           fromEndpoint1 (groupResponse 3)) ! 0)) = specGroupCapacity (- 1) 2 24"
    by simp
  from a b show ?thesis by (simp add: specGroupCount_def specGroupCapacity_def clamp255_def)
qed

text \<open>
  The claim as stated fails for the capacity: it is not clamped.  With capacity 1 on
  a node with two endpoints an Add group response leaves the capacity at 1 (clamping
  gives 0); with capacity 254 a Remove group response leaves it at 254 (clamping
  gives 255).
\<close>

theorem groupResponse_capacity_counterexample:
  "getNumberOfEndpoints (twoEndpoints 1 0) 9 = 2
   \<and> uint (groupCapacity (nodes (twoEndpoints 1 0) ! 0)) = 1
   \<and> uint (groupCapacity (nodes (handleGroupClusterIndication noMembership (twoEndpoints 1 0)
           fromEndpoint1 (groupResponse 0)) ! 0)) = 1
   \<and> specGroupCapacity 1 2 1 = 0
   \<and> uint (groupCapacity (nodes (twoEndpoints 254 1) ! 0)) = 254
   \<and> uint (groupCapacity (nodes (handleGroupClusterIndication noMembership (twoEndpoints 254 1)
           fromEndpoint1 (groupResponse 3)) ! 0)) = 254
   \<and> specGroupCapacity (- 1) 2 254 = 255"
  by code_simp


section \<open>Illuminance\<close>

lemma lux_set: "lux (setMeasuredIlluminance env qPow s z) = decodeIlluminance qPow (sensorModelId s) z"
  by (simp add: setMeasuredIlluminance_def Let_def)

lemma ucast_valid:
  fixes z :: "16 word"
  shows "((ucast z :: 32 word) > 0 \<and> (ucast z :: 32 word) < 0xffff) \<longleftrightarrow> (0 < z \<and> z < 0xffff)"
    and "unat (ucast z :: 32 word) = unat z"
proof -
  have "unat z < 2 ^ 16" using unsigned_less [of z, where ?'a = nat] by simp
  then have "unat z < 2 ^ 32" by simp
  then show u: "unat (ucast z :: 32 word) = unat z"
    by (simp add: unsigned_ucast_eq take_bit_nat_eq_self)
  have "unat (0xffff :: 32 word) = 65535" "unat (0xffff :: 16 word) = 65535"
    by simp_all
  then show "((ucast z :: 32 word) > 0 \<and> (ucast z :: 32 word) < 0xffff) \<longleftrightarrow> (0 < z \<and> z < 0xffff)"
    using u by (simp add: word_less_nat_alt)
qed

text \<open>
  C6 (as amended).  For a sensor whose model id does not start with \<open>FLS-NB\<close>:
  the attribute value 0 is stored as lux 0 and the value 0xFFFF as lux 0xFFFF; for
  every other value \<open>z\<close> the stored lux is \<open>qPow(10, z/10000) - 1\<close> truncated when
  that power is at least 1, and 0xFFFF when it is below 1; with the exact power the
  first case always applies.
\<close>

theorem illuminance_decoding:
  assumes "\<not> prefix ''FLS-NB'' (sensorModelId s)"
  shows "lux (setMeasuredIlluminance env qPow s 0) = 0
     \<and> lux (setMeasuredIlluminance env qPow s 0xffff) = 0xffff
     \<and> (0 < z \<and> z < 0xffff \<and> 1 \<le> qPow 10 (real (unat z) / 10000) \<longrightarrow>
          lux (setMeasuredIlluminance env qPow s z)
            = word_of_int \<lfloor>qPow 10 (real (unat z) / 10000) - 1\<rfloor>)
     \<and> (0 < z \<and> z < 0xffff \<and> qPow 10 (real (unat z) / 10000) < 1 \<longrightarrow>
          lux (setMeasuredIlluminance env qPow s z) = 0xffff)
     \<and> (0 < z \<and> z < 0xffff \<longrightarrow>
          lux (setMeasuredIlluminance env (\<lambda>b e. b powr e) s z)
            = word_of_int \<lfloor>10 powr (real (unat z) / 10000) - 1\<rfloor>)"
proof (intro conjI impI)
  show "lux (setMeasuredIlluminance env qPow s 0) = 0"
    using assms by (simp add: lux_set decodeIlluminance_def)
  show "lux (setMeasuredIlluminance env qPow s 0xffff) = 0xffff"
    using assms by (simp add: lux_set decodeIlluminance_def)
  show "lux (setMeasuredIlluminance env qPow s z)
            = word_of_int \<lfloor>qPow 10 (real (unat z) / 10000) - 1\<rfloor>"
    if "0 < z \<and> z < 0xffff \<and> 1 \<le> qPow 10 (real (unat z) / 10000)"
    using assms that ucast_valid [of z]
    by (simp add: lux_set decodeIlluminance_def Let_def)
  show "lux (setMeasuredIlluminance env qPow s z) = 0xffff"
    if "0 < z \<and> z < 0xffff \<and> qPow 10 (real (unat z) / 10000) < 1"
    using assms that ucast_valid [of z]
    by (simp add: lux_set decodeIlluminance_def Let_def)
  show "lux (setMeasuredIlluminance env (\<lambda>b e. b powr e) s z)
            = word_of_int \<lfloor>10 powr (real (unat z) / 10000) - 1\<rfloor>"
    if v: "0 < z \<and> z < 0xffff"
  proof -
    have "(0::real) \<le> real (unat z)" by (rule of_nat_0_le_iff)
    then have "(0::real) \<le> real (unat z) / 10000" by (rule divide_nonneg_nonneg) simp
    then have "(1::real) \<le> 10 powr (real (unat z) / 10000)"
      by (intro ge_one_powr_ge_zero) simp_all
    with assms v ucast_valid [of z] show ?thesis
      by (simp add: lux_set decodeIlluminance_def Let_def)
  qed
qed

theorem illuminance_decoding_witness:
  "lux (setMeasuredIlluminance (exampleEnv ''e2'') (\<lambda>b e. b powr e) lightSensor7 0) = 0
   \<and> lux (setMeasuredIlluminance (exampleEnv ''e2'') (\<lambda>b e. b powr e) lightSensor7 0xffff) = 0xffff
   \<and> lux (setMeasuredIlluminance (exampleEnv ''e2'') (\<lambda>b e. b powr e) lightSensor7 10000) = 9"
proof -
  have m: "\<not> prefix ''FLS-NB'' (sensorModelId lightSensor7)" by (simp add: lightSensor7_def)
  have v: "(0::16 word) < 10000 \<and> (10000::16 word) < 0xffff" by simp
  have p: "(10::real) powr (real (unat (10000::16 word)) / 10000) = 10" by simp
  from illuminance_decoding [OF m, of "exampleEnv ''e2''" "\<lambda>b e. b powr e" 10000] v p
  show ?thesis by simp
qed

text \<open>
  The claim as stated fails at \<open>z = 0\<close>: the stored lux is 0, not the sentinel
  0xFFFF (the stored value was 150, so the ETag is renewed as well).
\<close>

theorem illuminance_zero_counterexample:
  "lux (setMeasuredIlluminance (exampleEnv ''e2'') (\<lambda>b e. b powr e) lightSensor7 0) = 0
   \<and> (0 :: 32 word) \<noteq> 0xffff
   \<and> sensorEtag (setMeasuredIlluminance (exampleEnv ''e2'') (\<lambda>b e. b powr e) lightSensor7 0) = ''e2''"
  by (simp add: setMeasuredIlluminance_def decodeIlluminance_def lightSensor7_def exampleEnv_def Let_def)


section \<open>Button events\<close>

text \<open>
  A rule whose conditions all address \<open>buttonevent\<close> never sets \<open>ok2\<close>: the flag
  is written only by a condition on another attribute of the sensor.
\<close>

lemma checkRuleConditions_buttonevent_only:
  "list_all (\<lambda>c. indexOf ''buttonevent'' (cAddress c) \<noteq> None) cs \<Longrightarrow>
     snd (snd (checkRuleConditions s old cs (i, ok, False))) = False"
proof (induction cs arbitrary: i ok)
  case Nil
  then show ?case by simp
next
  case (Cons c cs)
  then show ?case by (simp add: Let_def)
qed

text \<open>
  So an event changes neither the rules nor the two queues of a plugin whose rules
  have conditions on \<open>buttonevent\<close> only, whatever the button code is.
\<close>

lemma gpRuleStep_buttonevent_only:
  assumes "ri < length (rules d)" and "list_all buttoneventOnly (rules d)"
  shows "fst (gpRuleStep env tb apsCtrl now s old (d, i) ri) = d"
proof -
  from assms have "buttoneventOnly (rules d ! ri)" by (simp add: list_all_length)
  then have "snd (snd (checkRuleConditions s old (conditions (rules d ! ri)) (i, False, False))) = False"
    unfolding buttoneventOnly_def by (rule checkRuleConditions_buttonevent_only)
  then show ?thesis
    by (cases "checkRuleConditions s old (conditions (rules d ! ri)) (i, False, False)")
       (simp add: gpRuleStep_def Let_def)
qed

lemma gpRules_buttonevent_only:
  assumes "list_all buttoneventOnly (rules d)" and "\<forall>ri \<in> set ris. ri < length (rules d)"
  shows "fst (foldl (gpRuleStep env tb apsCtrl now s old) (d, i) ris) = d"
  using assms(2)
proof (induction ris arbitrary: i)
  case Nil
  then show ?case by simp
next
  case (Cons ri ris)
  obtain d' i' where st: "gpRuleStep env tb apsCtrl now s old (d, i) ri = (d', i')"
    by fastforce
  from Cons.prems have "ri < length (rules d)" by simp
  from gpRuleStep_buttonevent_only [OF this assms(1), of env tb apsCtrl now s old i] st
  have "d' = d" by simp
  with st Cons show ?case by simp
qed

lemma gpProcessButtonEvent_buttonevent_only:
  assumes "list_all buttoneventOnly (rules d)"
  shows "rules (gpProcessButtonEvent env tb apsCtrl now d ind) = rules d
     \<and> tasks (gpProcessButtonEvent env tb apsCtrl now d ind) = tasks d
     \<and> runningTasks (gpProcessButtonEvent env tb apsCtrl now d ind) = runningTasks d"
proof (cases "getSensorNodeForAddress d (ucast (gpdSrcId ind))")
  case None
  then show ?thesis by (simp add: gpProcessButtonEvent_def)
next
  case (Some k)
  show ?thesis
  proof (cases "sensorDeletedState (sensors d ! k) = SensorDeleted")
    case True
    with Some show ?thesis by (simp add: gpProcessButtonEvent_def)
  next
    case False
    let ?s = "(sensors d ! k)\<lparr>buttonevent := uint (gpdCommandId ind),
                lastupdated := envCurrentDateTimeUtc env, sensorEtag := envEtag env\<rparr>"
    let ?d1 = "d\<lparr>sensors := (sensors d)[k := ?s]\<rparr>"
    have "list_all buttoneventOnly (rules ?d1)" using assms by simp
    from gpRules_buttonevent_only [OF this, of "[0..<length (rules ?d1)]"]
    have "fst (foldl (gpRuleStep env tb apsCtrl now ?s (lastupdated (sensors d ! k))) (?d1, [])
                 [0..<length (rules ?d1)]) = ?d1"
      by simp
    with Some False have "gpProcessButtonEvent env tb apsCtrl now d ind = ?d1"
      by (simp add: gpProcessButtonEvent_def Let_def)
    then show ?thesis by simp
  qed
qed

lemma buttonevent_only_rule:
  "map conditions (rules store1)
     = [[\<lparr>cAddress = ''/sensors/5/state/buttonevent'', cOperator = ''eq'', cValue = ''16''\<rparr>]]"
  by code_simp

lemma buttonevent_only_event:
  "triggerSummary (gpProcessButtonEvent (exampleEnv ''e5'') exampleBuilders
         (Some exampleController) 0 (buttonPlugin (rules store1)) button16)
       = ([], [], [0], [16])"
  by code_simp

lemma buttonevent_and_lastupdated_event:
  "triggerSummary (gpProcessButtonEvent (exampleEnv ''e5'') exampleBuilders
         (Some exampleController) 0 (buttonPlugin (rules storeBoth)) button16)
       = ([], [(TaskCallScene, 3)], [1], [16])"
  by code_simp

text \<open>
  C2.  The rule of the button-to-scene scenario has the single condition
  \<open>/sensors/5/state/buttonevent eq 16\<close>.  The indication of button code 16 from
  the switch stores the code on the sensor, but enqueues no task and leaves the
  trigger count at 0, because the handler runs the actions only when \<open>ok && ok2\<close>
  holds.  The same rule with the further condition \<open>/sensors/5/state/lastupdated
  dx\<close> fires: a recall-scene task to group 3 is sent and the trigger count is 1.
\<close>

theorem gpProcessButtonEvent_buttonevent_only_not_triggered:
  "map conditions (rules store1)
     = [[\<lparr>cAddress = ''/sensors/5/state/buttonevent'', cOperator = ''eq'', cValue = ''16''\<rparr>]]
   \<and> triggerSummary (gpProcessButtonEvent (exampleEnv ''e5'') exampleBuilders
         (Some exampleController) 0 (buttonPlugin (rules store1)) button16)
       = ([], [], [0], [16])
   \<and> triggerSummary (gpProcessButtonEvent (exampleEnv ''e5'') exampleBuilders
         (Some exampleController) 0 (buttonPlugin (rules storeBoth)) button16)
       = ([], [(TaskCallScene, 3)], [1], [16])"
  using buttonevent_only_rule buttonevent_only_event buttonevent_and_lastupdated_event
  by (intro conjI)


end
